theory Spec2Isabelle
  imports Main "HOL-Library.FSet" "HOL-Library.Finite_Map"
begin

section \<open>Type terms\<close>

text \<open>
  The library is a catalogue of TypeScript type aliases (\<^verbatim>\<open>mapped-types.ts\<close>,
  \<^verbatim>\<open>utility-types.ts\<close>) with two runtime guards: programs that the type checker evaluates
  on types. A type is modelled by the finite set of its union constituents: \<^verbatim>\<open>never\<close> is
  the empty set, a type that is no union is a singleton, and \<^verbatim>\<open>A | B\<close> is the union of
  the two sets. A constituent is a primitive, a string literal, a function signature
  (the parameters with their \<^verbatim>\<open>?\<close> flag, and the return type), an array (its
  \<^verbatim>\<open>readonly\<close> flag and its element type) or an object shape: a finite map from property
  names to the type read at the property (\<^verbatim>\<open>T[P]\<close>, which holds \<^verbatim>\<open>undefined\<close> for an
  optional property), its \<^verbatim>\<open>?\<close> flag and its \<^verbatim>\<open>readonly\<close> flag.

  The library declares three generic interfaces, \<^verbatim>\<open>_DeepReadonlyArray<T>\<close>,
  \<^verbatim>\<open>_DeepRequiredArray<T>\<close> and \<^verbatim>\<open>_DeepNonNullableArray<T>\<close>, each of which extends an array
  type and adds no member. An instance of one of them is a constituent of its own
  (\<open>MInst\<close>): it records the interface, the type argument, and the element type of the array
  type that the instance extends. Two instances of one interface with different type
  arguments are different types, also where they extend the same array type. A mapped
  type over such an instance does not yield an array type, as it does over an array
  type itself: it yields an object type with the members of the array interface that
  the instance extends and the mapped element type at the numeric index (\<open>MMapped\<close>: the
  flag tells \<^verbatim>\<open>ReadonlyArray\<close> from \<^verbatim>\<open>Array\<close>, the type is the one at the numeric index).

  The fragment has no \<^verbatim>\<open>any\<close>, no tuples, no generic signatures and no rest parameters,
  and no index signature but the numeric one of the array interfaces; \<^verbatim>\<open>boolean\<close> is one
  constituent.
\<close>

datatype prim = PString | PNumber | PBoolean | PSymbol | PNull | PUndefined

datatype helper = HReadonly | HRequired | HNonNullable

datatype mem =
    MPrim prim
  | MLit string
  | MFun "(mem fset \<times> bool) list" "mem fset"
  | MArray bool "mem fset"
  | MObj "(string, mem fset \<times> bool \<times> bool) fmap"
  | MInst helper "mem fset" "mem fset"
  | MMapped bool "mem fset"

type_synonym ty = "mem fset"

type_synonym property = "ty \<times> bool \<times> bool"

abbreviation never :: ty where
  "never \<equiv> {||}"

section \<open>The type operators of the host language\<close>

text \<open>
  A conditional type \<^verbatim>\<open>T extends U ? X : Y\<close> whose checked type is a naked type parameter
  distributes over the constituents of the type it is instantiated with, and the
  results are united.
\<close>

definition distribute :: "(mem \<Rightarrow> ty) \<Rightarrow> ty \<Rightarrow> ty" where
  "distribute f T = ffUnion (f |`| T)"

text \<open>The number of arguments a signature needs: the parameters before the first optional one.\<close>

definition min_args :: "(ty \<times> bool) list \<Rightarrow> nat" where
  "min_args ps = length (takeWhile (\<lambda>p. \<not> snd p) ps)"

text \<open>The size of a type, and the bounds that the termination proofs below rest on.\<close>

definition ty_size :: "ty \<Rightarrow> nat" where
  "ty_size T = (\<Sum>x\<in>fset T. Suc (size x))"

lemma size_fset_member:
  "m |\<in>| e \<Longrightarrow> size m < (\<Sum>x\<in>fset e. Suc (size (x::mem)))"
proof -
  assume "m |\<in>| e"
  then have "Suc (size m) \<le> (\<Sum>x\<in>fset e. Suc (size x))"
    by (intro member_le_sum [of m "fset e" "\<lambda>x. Suc (size x)"]) auto
  then show ?thesis by simp
qed

lemma size_param_member:
  "(a, b) \<in> set ps \<Longrightarrow> m |\<in>| a \<Longrightarrow>
   size m < size_list (size_prod (\<lambda>x. \<Sum>x\<in>fset x. Suc (size (x::mem))) (\<lambda>x. 0)) ps"
proof (induction ps)
  case Nil
  then show ?case by simp
next
  case (Cons p ps)
  show ?case
  proof (cases "(a, b) = p")
    case True
    with size_fset_member [OF Cons.prems(2)] show ?thesis by auto
  next
    case False
    with Cons have "size m < size_list (size_prod (\<lambda>x. \<Sum>x\<in>fset x. Suc (size x)) (\<lambda>x. 0)) ps"
      by simp
    then show ?thesis by simp
  qed
qed

lemma size_zip_members:
  assumes "(p, q) \<in> set (zip ps qs)" and "n |\<in>| fst q" and "m |\<in>| fst p"
  shows "size n + size m <
     size_list (size_prod (\<lambda>x. \<Sum>x\<in>fset x. Suc (size (x::mem))) (\<lambda>x. 0)) ps +
     size_list (size_prod (\<lambda>x. \<Sum>x\<in>fset x. Suc (size (x::mem))) (\<lambda>x. 0)) qs"
proof -
  from assms(1) have "(fst p, snd p) \<in> set ps" and "(fst q, snd q) \<in> set qs"
    by (auto dest: set_zip_leftD set_zip_rightD)
  then show ?thesis
    using size_param_member [of "fst p" "snd p" ps m] size_param_member [of "fst q" "snd q" qs n] assms
    by linarith
qed

lemma size_prop_member:
  "fmlookup ps k = Some (a, b) \<Longrightarrow> m |\<in>| a \<Longrightarrow>
   size m < (\<Sum>x\<in>fset (fset_of_fmap ps).
      Suc (case x of (k, p) \<Rightarrow> size_prod (\<lambda>x. \<Sum>x\<in>fset x. Suc (size (x::mem))) (\<lambda>x. 0) p))"
proof -
  assume k: "fmlookup ps k = Some (a, b)" and m: "m |\<in>| a"
  let ?g = "\<lambda>x. Suc (case x of (k, p) \<Rightarrow>
      size_prod (\<lambda>x. \<Sum>x\<in>fset x. Suc (size (x::mem))) (\<lambda>x. 0) p)"
  from k have "(k, (a, b)) \<in> fset (fset_of_fmap ps)"
    by (simp add: fset_of_fmap_iff)
  then have "?g (k, (a, b)) \<le> (\<Sum>x\<in>fset (fset_of_fmap ps). ?g x)"
    by (intro member_le_sum) auto
  with size_fset_member [OF m] show ?thesis by simp
qed

lemma ty_size_member: "m |\<in>| T \<Longrightarrow> size m < ty_size T"
  unfolding ty_size_def by (rule size_fset_member)

lemma ty_size_mono: "A |\<subseteq>| B \<Longrightarrow> ty_size A \<le> ty_size B"
  unfolding ty_size_def by (intro sum_mono2) (auto simp: less_eq_fset.rep_eq)

lemma size_MArray: "size (MArray ro e) = Suc (ty_size e)"
  by (simp add: ty_size_def)

lemma size_MInst: "size (MInst h x e) = Suc (ty_size x + ty_size e)"
  by (simp add: ty_size_def)

lemma size_MMapped: "size (MMapped ro e) = Suc (ty_size e)"
  by (simp add: ty_size_def)

lemma ty_size_property: "p \<in> fmran' ps \<Longrightarrow> ty_size (fst p) < size (MObj ps)"
proof -
  assume "p \<in> fmran' ps"
  then obtain k where k: "fmlookup ps k = Some p" by (auto simp: fmran'_def)
  let ?g = "\<lambda>x. Suc (case x of (k, p) \<Rightarrow>
      size_prod (\<lambda>x. \<Sum>x\<in>fset x. Suc (size (x::mem))) (\<lambda>x. 0) p)"
  from k have "(k, p) \<in> fset (fset_of_fmap ps)"
    by (simp add: fset_of_fmap_iff)
  then have "?g (k, p) \<le> (\<Sum>x\<in>fset (fset_of_fmap ps). ?g x)"
    by (intro member_le_sum) auto
  then show ?thesis by (cases p) (simp add: ty_size_def)
qed

lemma ty_size_property_sub:
  "(a, b) \<in> fmran' ps \<Longrightarrow> a' |\<subseteq>| a \<Longrightarrow> ty_size a' < size (MObj ps)"
  using ty_size_property [of "(a, b)" ps] ty_size_mono [of a' a] by simp

text \<open>
  The array members of a constituent: an array type has them, an instance of a helper
  interface has those of the array type it extends, and a mapped object over such an
  instance has those of the same array interface. \<open>array_view\<close> gives the \<^verbatim>\<open>readonly\<close> flag
  and the element type \<^verbatim>\<open>T[number]\<close>.
\<close>

fun array_view :: "mem \<Rightarrow> (bool \<times> ty) option" where
  "array_view (MArray ro e) = Some (ro, e)"
| "array_view (MInst h x e) = Some (h = HReadonly, e)"
| "array_view (MMapped ro e) = Some (ro, e)"
| "array_view (MPrim p) = None"
| "array_view (MLit s) = None"
| "array_view (MFun ps r) = None"
| "array_view (MObj ps) = None"

lemma size_array_view:
  "array_view t = Some (ro, e) \<Longrightarrow> n |\<in>| e \<Longrightarrow> size n < size t"
  by (cases t) (auto dest: size_fset_member)

lemma size_array_members:
  assumes "array_view t = Some (ro, e')" and "(m::mem) |\<in>| e" and "n |\<in>| e'"
  shows "size m + size n < (\<Sum>x\<in>fset e. Suc (size x)) + size t"
  using size_fset_member [OF assms(2)] size_array_view [OF assms(1,3)] by linarith

text \<open>
  Assignability of one constituent to another, as the check of a conditional type uses
  it (strict null checks, strict function types): a primitive goes to itself, a string
  literal to itself and to \<^verbatim>\<open>string\<close>; a signature goes to a signature that supplies
  enough arguments, with parameters compared contravariantly and return types
  covariantly; a mutable array goes to a mutable or a readonly array, a readonly array
  to a readonly one; a shape goes to a shape when it has every required property of
  the target, with assignable types, and an optional property only where the target's
  is optional. Everything but \<^verbatim>\<open>null\<close> and \<^verbatim>\<open>undefined\<close> goes to the empty shape \<^verbatim>\<open>{}\<close>.
  Types are related by their members: an instance of a helper interface, and a mapped
  object over one, is related to other types as the array whose members it has.
  The members that primitives, arrays and functions inherit from their wrapper
  interfaces (\<^verbatim>\<open>length\<close>, \<^verbatim>\<open>toString\<close>, ...) are not part of the fragment.
\<close>

function assignable :: "mem \<Rightarrow> mem \<Rightarrow> bool" where
  "assignable (MPrim p) t =
     (t = MPrim p \<or> (t = MObj fmempty \<and> p \<noteq> PNull \<and> p \<noteq> PUndefined))"
| "assignable (MLit s) t = (t = MLit s \<or> t = MPrim PString \<or> t = MObj fmempty)"
| "assignable (MFun ps r) t =
     (case t of
        MFun qs r' \<Rightarrow>
          min_args ps \<le> length qs \<and>
          list_all (\<lambda>(p, q). fBall (fst q) (\<lambda>n. fBex (fst p) (\<lambda>m. assignable n m))) (zip ps qs) \<and>
          fBall r (\<lambda>m. fBex r' (\<lambda>n. assignable m n))
      | MObj qs \<Rightarrow> qs = fmempty
      | _ \<Rightarrow> False)"
| "assignable (MArray ro e) t =
     (case array_view t of
        Some (ro', e') \<Rightarrow> (ro \<longrightarrow> ro') \<and> fBall e (\<lambda>m. fBex e' (\<lambda>n. assignable m n))
      | None \<Rightarrow> t = MObj fmempty)"
| "assignable (MInst h x e) t =
     (case array_view t of
        Some (ro', e') \<Rightarrow>
          (h = HReadonly \<longrightarrow> ro') \<and> fBall e (\<lambda>m. fBex e' (\<lambda>n. assignable m n))
      | None \<Rightarrow> t = MObj fmempty)"
| "assignable (MMapped ro e) t =
     (case array_view t of
        Some (ro', e') \<Rightarrow> (ro \<longrightarrow> ro') \<and> fBall e (\<lambda>m. fBex e' (\<lambda>n. assignable m n))
      | None \<Rightarrow> t = MObj fmempty)"
| "assignable (MObj ps) t =
     (case t of
        MObj qs \<Rightarrow>
          fBall (fmdom qs) (\<lambda>k.
            case fmlookup qs k of
              None \<Rightarrow> True
            | Some (u, uopt, uro) \<Rightarrow>
                (case fmlookup ps k of
                   None \<Rightarrow> uopt
                 | Some (s, sopt, sro) \<Rightarrow>
                     (sopt \<longrightarrow> uopt) \<and> fBall s (\<lambda>m. fBex u (\<lambda>n. assignable m n))))
      | _ \<Rightarrow> False)"
  by pat_completeness auto
termination
proof (relation "measure (\<lambda>(m, n). size m + size n)", goal_cases)
  case 1
  show ?case by simp
next
  case 2
  then show ?case
    by (auto dest!: size_zip_members)
next
  case 3
  then show ?case
    by (auto dest!: size_fset_member)
next
  case (4 ro e t x2 ro' e' m n)
  then show ?case
    using size_array_members [of t ro' e' m e n] by auto
next
  case (5 h x e t x2 ro' e' m n)
  then show ?case
    using size_array_members [of t ro' e' m e n] by auto
next
  case (6 ro e t x2 ro' e' m n)
  then show ?case
    using size_array_members [of t ro' e' m e n] by auto
next
  case 7
  then show ?case
    by (auto dest!: size_prop_member)
qed

text \<open>\<^verbatim>\<open>m extends U\<close> for one constituent \<open>m\<close>: it is assignable to a constituent of \<open>U\<close>.\<close>

definition extends :: "mem \<Rightarrow> ty \<Rightarrow> bool" where
  "extends m U = fBex U (assignable m)"

text \<open>\<^verbatim>\<open>T extends any\<close>: the check that only serves to distribute.\<close>

definition extends_any :: "mem \<Rightarrow> bool" where
  "extends_any m = True"

text \<open>The named properties of a constituent; only shapes have some in the fragment.\<close>

fun props_of :: "mem \<Rightarrow> (string, property) fmap" where
  "props_of (MObj ps) = ps"
| "props_of _ = fmempty"

text \<open>
  \<^verbatim>\<open>keyof T\<close>: the keys that every constituent of \<open>T\<close> has, as a union of string literals
  (\<^verbatim>\<open>keyof (A | B)\<close> is \<^verbatim>\<open>keyof A & keyof B\<close>, and \<^verbatim>\<open>keyof never\<close> is every key type).
\<close>

definition has_key :: "ty \<Rightarrow> string \<Rightarrow> bool" where
  "has_key T k = fBall T (\<lambda>m. k |\<in>| fmdom (props_of m))"

definition keyof :: "ty \<Rightarrow> ty" where
  "keyof T =
     (if T = never then {|MPrim PString, MPrim PNumber, MPrim PSymbol|}
      else MLit |`| ffilter (has_key T) (ffUnion ((\<lambda>m. fmdom (props_of m)) |`| T)))"

text \<open>
  The indexed access \<^verbatim>\<open>T[k]\<close> at a property name: the union of the constituents' property
  types.
\<close>

definition index_type :: "ty \<Rightarrow> string \<Rightarrow> ty" where
  "index_type T k =
     distribute (\<lambda>m. case fmlookup (props_of m) k of Some (t, opt, ro) \<Rightarrow> t | None \<Rightarrow> never) T"

text \<open>
  The property \<open>k\<close> of a type, with its modifiers: the property of a union is taken as
  optional, or readonly, when it is so in some constituent.
\<close>

definition prop_at :: "ty \<Rightarrow> string \<Rightarrow> property" where
  "prop_at T k =
     (index_type T k,
      fBex T (\<lambda>m. case fmlookup (props_of m) k of Some (t, opt, ro) \<Rightarrow> opt | None \<Rightarrow> False),
      fBex T (\<lambda>m. case fmlookup (props_of m) k of Some (t, opt, ro) \<Rightarrow> ro | None \<Rightarrow> False))"

text \<open>The string literals among the constituents of a key type.\<close>

definition lit_keys :: "ty \<Rightarrow> string fset" where
  "lit_keys K = ffUnion ((\<lambda>m. case m of MLit k \<Rightarrow> {|k|} | _ \<Rightarrow> {||}) |`| K)"

text \<open>The finite map that holds \<open>f k\<close> at every key \<open>k\<close> of \<open>A\<close>.\<close>

definition fmtab :: "'a fset \<Rightarrow> ('a \<Rightarrow> 'b) \<Rightarrow> ('a, 'b) fmap" where
  "fmtab A f = Abs_fmap (\<lambda>x. if x |\<in>| A then Some (f x) else None)"

text \<open>
  \<^verbatim>\<open>Pick<T, K extends keyof T> = { [P in K]: T[P] }\<close> of the standard library: one shape,
  with the properties of \<open>T\<close> named in \<open>K\<close> and their modifiers. It does not distribute
  over \<open>T\<close>.
\<close>

definition Pick :: "ty \<Rightarrow> ty \<Rightarrow> ty" where
  "Pick T K = {|MObj (fmtab (ffilter (has_key T) (lit_keys K)) (prop_at T))|}"



text \<open>\<^verbatim>\<open>NonNullable<T> = T extends null | undefined ? never : T\<close> of the standard library.\<close>

definition NonNullable :: "ty \<Rightarrow> ty" where
  "NonNullable T =
     distribute (\<lambda>t. if extends t {|MPrim PNull, MPrim PUndefined|} then never else {|t|}) T"

text \<open>
  The modifiers of a mapped type \<^verbatim>\<open>{ readonly [P in keyof T]?: X }\<close>: each of \<^verbatim>\<open>?\<close> and
  \<^verbatim>\<open>readonly\<close> is kept as the property of \<open>T\<close> has it, added, or removed (\<^verbatim>\<open>-?\<close>). A
  property that comes out optional has \<^verbatim>\<open>undefined\<close> in its type; one that \<^verbatim>\<open>-?\<close> made
  required loses \<^verbatim>\<open>undefined\<close>. A mapped type over an array type is the array of the
  mapped element type.
\<close>

datatype modifier = Keep | Add | Remove

definition set_flag :: "modifier \<Rightarrow> bool \<Rightarrow> bool" where
  "set_flag m b = (case m of Keep \<Rightarrow> b | Add \<Rightarrow> True | Remove \<Rightarrow> False)"

definition without_undefined :: "ty \<Rightarrow> ty" where
  "without_undefined T = ffilter (\<lambda>m. m \<noteq> MPrim PUndefined) T"

definition mapped_property :: "modifier \<Rightarrow> modifier \<Rightarrow> property \<Rightarrow> ty \<Rightarrow> property" where
  "mapped_property q r p t =
     (case p of (t0, opt, ro) \<Rightarrow>
        (if set_flag q opt then finsert (MPrim PUndefined) t
         else if opt then without_undefined t
         else t,
         set_flag q opt, set_flag r ro))"

definition mapped_element :: "modifier \<Rightarrow> ty \<Rightarrow> ty" where
  "mapped_element q t =
     (case q of Keep \<Rightarrow> t | Add \<Rightarrow> finsert (MPrim PUndefined) t | Remove \<Rightarrow> without_undefined t)"

section \<open>The set operators of \<^verbatim>\<open>mapped-types.ts\<close>\<close>

text \<open>\<^verbatim>\<open>SetIntersection<A, B> = A extends B ? A : never\<close>\<close>

definition SetIntersection :: "ty \<Rightarrow> ty \<Rightarrow> ty" where
  "SetIntersection A B = distribute (\<lambda>a. if extends a B then {|a|} else never) A"

text \<open>\<^verbatim>\<open>SetDifference<A, B> = A extends B ? never : A\<close>\<close>

definition SetDifference :: "ty \<Rightarrow> ty \<Rightarrow> ty" where
  "SetDifference A B = distribute (\<lambda>a. if extends a B then never else {|a|}) A"

text \<open>\<^verbatim>\<open>SetComplement<A, A1 extends A> = SetDifference<A, A1>\<close>\<close>

definition SetComplement :: "ty \<Rightarrow> ty \<Rightarrow> ty" where
  "SetComplement A A1 = SetDifference A A1"

text \<open>\<^verbatim>\<open>NonUndefined<A> = A extends undefined ? never : A\<close>\<close>

definition NonUndefined :: "ty \<Rightarrow> ty" where
  "NonUndefined A = distribute (\<lambda>a. if extends a {|MPrim PUndefined|} then never else {|a|}) A"

section \<open>The object-shape operators of \<^verbatim>\<open>mapped-types.ts\<close>\<close>

text \<open>\<^verbatim>\<open>Omit<T, K> = T extends any ? Pick<T, SetDifference<keyof T, K>> : never\<close>\<close>

definition Omit :: "ty \<Rightarrow> ty \<Rightarrow> ty" where
  "Omit T K =
     distribute (\<lambda>t. if extends_any t then Pick {|t|} (SetDifference (keyof {|t|}) K) else never) T"

text \<open>\<^verbatim>\<open>Intersection<T, U> = T extends any ? Pick<T, SetIntersection<keyof T, keyof U>> : never\<close>\<close>

definition Intersection :: "ty \<Rightarrow> ty \<Rightarrow> ty" where
  "Intersection T U =
     distribute (\<lambda>t. if extends_any t then Pick {|t|} (SetIntersection (keyof {|t|}) (keyof U))
                     else never) T"

text \<open>\<^verbatim>\<open>Diff<T, U> = Pick<T, SetDifference<keyof T, keyof U>>\<close>\<close>

definition Diff :: "ty \<Rightarrow> ty \<Rightarrow> ty" where
  "Diff T U = Pick T (SetDifference (keyof T) (keyof U))"

text \<open>\<^verbatim>\<open>Subtract<T extends T1, T1> = Pick<T, SetComplement<keyof T, keyof T1>>\<close>\<close>

definition Subtract :: "ty \<Rightarrow> ty \<Rightarrow> ty" where
  "Subtract T T1 = Pick T (SetComplement (keyof T) (keyof T1))"



section \<open>The deep transforms of \<^verbatim>\<open>mapped-types.ts\<close>\<close>

text \<open>Facts that the termination proofs of the deep transforms use.\<close>

lemma ffUnion_iff: "x |\<in>| ffUnion A \<longleftrightarrow> (\<exists>a. a |\<in>| A \<and> x |\<in>| a)"
  by (auto simp: ffUnion.rep_eq)

lemma distribute_iff: "x |\<in>| distribute f T \<longleftrightarrow> (\<exists>m. m |\<in>| T \<and> x |\<in>| f m)"
  by (auto simp: distribute_def ffUnion_iff)

lemma distribute_cong [fundef_cong]:
  "T = U \<Longrightarrow> (\<And>m. m |\<in>| U \<Longrightarrow> f m = g m) \<Longrightarrow> distribute f T = distribute g U"
  by (auto simp: distribute_def cong: fset.map_cong)

lemma NonUndefined_sub: "NonUndefined T |\<subseteq>| T"
  by (auto simp: NonUndefined_def distribute_iff split: if_splits)

lemma NonNullable_sub: "NonNullable T |\<subseteq>| T"
  by (auto simp: NonNullable_def distribute_iff split: if_splits)

lemma ty_size_NonUndefined:
  "2 * ty_size (NonUndefined T) < Suc (2 * ty_size T)"
  "2 * ty_size (NonUndefined T) < Suc (Suc (2 * ty_size T))"
  "2 * ty_size (NonUndefined T) < Suc (Suc (2 * n + 2 * ty_size T))"
  using ty_size_mono [OF NonUndefined_sub, of T] by simp_all

lemma ty_size_NonNullable:
  "2 * ty_size (NonNullable T) < Suc (2 * ty_size T)"
  "2 * ty_size (NonNullable T) < Suc (Suc (2 * ty_size T))"
  "2 * ty_size (NonNullable T) < Suc (Suc (2 * n + 2 * ty_size T))"
  using ty_size_mono [OF NonNullable_sub, of T] by simp_all

lemma ty_size_property_NonUndefined:
  "(a, b) \<in> fmran' ps \<Longrightarrow> ty_size (NonUndefined a) < size (MObj ps)"
  by (rule ty_size_property_sub [OF _ NonUndefined_sub])

lemma ty_size_property_NonNullable:
  "(a, b) \<in> fmran' ps \<Longrightarrow> ty_size (NonNullable a) < size (MObj ps)"
  by (rule ty_size_property_sub [OF _ NonNullable_sub])

text \<open>
  \<^verbatim>\<open>DeepReadonly<T> = T extends (...args: any[]) => any ? T : T extends any[] ?
  _DeepReadonlyArray<T[number]> : T extends object ? _DeepReadonlyObject<T> : T\<close>, with
  \<^verbatim>\<open>interface _DeepReadonlyArray<T> extends ReadonlyArray<DeepReadonly<T>> {}\<close> and
  \<^verbatim>\<open>_DeepReadonlyObject<T> = { readonly [P in keyof T]: DeepReadonly<T[P]> }\<close>.

  \<open>DeepReadonly1\<close> is the chain of conditions on one constituent, in the order of the
  source: a signature extends the function type; what has the members of a mutable
  array extends \<^verbatim>\<open>any[]\<close> (a mutable array, an instance of \<^verbatim>\<open>_DeepRequiredArray\<close> or of
  \<^verbatim>\<open>_DeepNonNullableArray\<close>), and \<^verbatim>\<open>T[number]\<close> is its element type; what has the members
  of a readonly array does not (a readonly array, an instance of \<^verbatim>\<open>_DeepReadonlyArray\<close>),
  and extends \<^verbatim>\<open>object\<close>, as a shape does; a primitive and a literal reach the last
  branch. \<open>DeepReadonlyArray\<close> and \<open>DeepReadonlyObject\<close> are the two helper types (an
  Isabelle name cannot start with an underscore): the first yields the instance of the
  interface at the type argument it is given, the second is a mapped type, which maps
  an array type to an array type, and an instance of a helper interface to an object
  type.
\<close>

function DeepReadonly :: "ty \<Rightarrow> ty"
  and DeepReadonly1 :: "mem \<Rightarrow> ty"
  and DeepReadonlyArray :: "ty \<Rightarrow> ty"
  and DeepReadonlyObject :: "mem \<Rightarrow> ty"
where
  "DeepReadonly T = distribute DeepReadonly1 T"
| "DeepReadonly1 (MFun ps r) = {|MFun ps r|}"
| "DeepReadonly1 (MArray False e) = DeepReadonlyArray e"
| "DeepReadonly1 (MArray True e) = DeepReadonlyObject (MArray True e)"
| "DeepReadonly1 (MInst HRequired x e) = DeepReadonlyArray e"
| "DeepReadonly1 (MInst HNonNullable x e) = DeepReadonlyArray e"
| "DeepReadonly1 (MInst HReadonly x e) = DeepReadonlyObject (MInst HReadonly x e)"
| "DeepReadonly1 (MMapped False e) = DeepReadonlyArray e"
| "DeepReadonly1 (MMapped True e) = DeepReadonlyObject (MMapped True e)"
| "DeepReadonly1 (MObj ps) = DeepReadonlyObject (MObj ps)"
| "DeepReadonly1 (MPrim p) = {|MPrim p|}"
| "DeepReadonly1 (MLit s) = {|MLit s|}"
| "DeepReadonlyArray T = {|MInst HReadonly T (DeepReadonly T)|}"
| "DeepReadonlyObject (MObj ps) =
     {|MObj (fmmap (\<lambda>p. mapped_property Keep Add p (DeepReadonly (fst p))) ps)|}"
| "DeepReadonlyObject (MArray ro e) =
     {|MArray (set_flag Add ro) (mapped_element Keep (DeepReadonly e))|}"
| "DeepReadonlyObject (MInst h x e) = {|MMapped (h = HReadonly) (DeepReadonly e)|}"
| "DeepReadonlyObject (MMapped ro e) = {|MMapped ro (DeepReadonly e)|}"
| "DeepReadonlyObject (MFun ps r) = {|MFun ps r|}"
| "DeepReadonlyObject (MPrim p) = {|MPrim p|}"
| "DeepReadonlyObject (MLit s) = {|MLit s|}"
  by pat_completeness auto
termination
  by (relation "measure (\<lambda>x. case x of
      Inl (Inl T) \<Rightarrow> 2 * ty_size T
    | Inl (Inr m) \<Rightarrow> 2 * size m + 1
    | Inr (Inl T) \<Rightarrow> 2 * ty_size T + 1
    | Inr (Inr m) \<Rightarrow> 2 * size m)")
    (auto simp: size_MArray size_MInst size_MMapped dest: ty_size_member ty_size_property
      simp del: mem.size)

text \<open>
  \<^verbatim>\<open>DeepRequired<T>\<close>: the same chain, with
  \<^verbatim>\<open>interface _DeepRequiredArray<T> extends Array<DeepRequired<NonUndefined<T>>> {}\<close> and
  \<^verbatim>\<open>_DeepRequiredObject<T> = { [P in keyof T]-?: DeepRequired<NonUndefined<T[P]>> }\<close>.
\<close>

function DeepRequired :: "ty \<Rightarrow> ty"
  and DeepRequired1 :: "mem \<Rightarrow> ty"
  and DeepRequiredArray :: "ty \<Rightarrow> ty"
  and DeepRequiredObject :: "mem \<Rightarrow> ty"
where
  "DeepRequired T = distribute DeepRequired1 T"
| "DeepRequired1 (MFun ps r) = {|MFun ps r|}"
| "DeepRequired1 (MArray False e) = DeepRequiredArray e"
| "DeepRequired1 (MArray True e) = DeepRequiredObject (MArray True e)"
| "DeepRequired1 (MInst HRequired x e) = DeepRequiredArray e"
| "DeepRequired1 (MInst HNonNullable x e) = DeepRequiredArray e"
| "DeepRequired1 (MInst HReadonly x e) = DeepRequiredObject (MInst HReadonly x e)"
| "DeepRequired1 (MMapped False e) = DeepRequiredArray e"
| "DeepRequired1 (MMapped True e) = DeepRequiredObject (MMapped True e)"
| "DeepRequired1 (MObj ps) = DeepRequiredObject (MObj ps)"
| "DeepRequired1 (MPrim p) = {|MPrim p|}"
| "DeepRequired1 (MLit s) = {|MLit s|}"
| "DeepRequiredArray T = {|MInst HRequired T (DeepRequired (NonUndefined T))|}"
| "DeepRequiredObject (MObj ps) =
     {|MObj (fmmap (\<lambda>p. mapped_property Remove Keep p (DeepRequired (NonUndefined (fst p)))) ps)|}"
| "DeepRequiredObject (MArray ro e) =
     {|MArray (set_flag Keep ro) (mapped_element Remove (DeepRequired (NonUndefined e)))|}"
| "DeepRequiredObject (MInst h x e) =
     {|MMapped (h = HReadonly) (DeepRequired (NonUndefined e))|}"
| "DeepRequiredObject (MMapped ro e) = {|MMapped ro (DeepRequired (NonUndefined e))|}"
| "DeepRequiredObject (MFun ps r) = {|MFun ps r|}"
| "DeepRequiredObject (MPrim p) = {|MPrim p|}"
| "DeepRequiredObject (MLit s) = {|MLit s|}"
  by pat_completeness auto
termination
  by (relation "measure (\<lambda>x. case x of
      Inl (Inl T) \<Rightarrow> 2 * ty_size T
    | Inl (Inr m) \<Rightarrow> 2 * size m + 1
    | Inr (Inl T) \<Rightarrow> 2 * ty_size T + 1
    | Inr (Inr m) \<Rightarrow> 2 * size m)")
    (auto simp: size_MArray size_MInst size_MMapped ty_size_NonUndefined
      intro: ty_size_property_NonUndefined dest: ty_size_member ty_size_property
      simp del: mem.size)

text \<open>
  \<^verbatim>\<open>DeepNonNullable<T>\<close>: the same chain, with
  \<^verbatim>\<open>interface _DeepNonNullableArray<T> extends Array<DeepNonNullable<NonNullable<T>>> {}\<close>
  and \<^verbatim>\<open>_DeepNonNullableObject<T> = { [P in keyof T]-?: DeepNonNullable<NonNullable<T[P]>> }\<close>.
\<close>

function DeepNonNullable :: "ty \<Rightarrow> ty"
  and DeepNonNullable1 :: "mem \<Rightarrow> ty"
  and DeepNonNullableArray :: "ty \<Rightarrow> ty"
  and DeepNonNullableObject :: "mem \<Rightarrow> ty"
where
  "DeepNonNullable T = distribute DeepNonNullable1 T"
| "DeepNonNullable1 (MFun ps r) = {|MFun ps r|}"
| "DeepNonNullable1 (MArray False e) = DeepNonNullableArray e"
| "DeepNonNullable1 (MArray True e) = DeepNonNullableObject (MArray True e)"
| "DeepNonNullable1 (MInst HRequired x e) = DeepNonNullableArray e"
| "DeepNonNullable1 (MInst HNonNullable x e) = DeepNonNullableArray e"
| "DeepNonNullable1 (MInst HReadonly x e) = DeepNonNullableObject (MInst HReadonly x e)"
| "DeepNonNullable1 (MMapped False e) = DeepNonNullableArray e"
| "DeepNonNullable1 (MMapped True e) = DeepNonNullableObject (MMapped True e)"
| "DeepNonNullable1 (MObj ps) = DeepNonNullableObject (MObj ps)"
| "DeepNonNullable1 (MPrim p) = {|MPrim p|}"
| "DeepNonNullable1 (MLit s) = {|MLit s|}"
| "DeepNonNullableArray T = {|MInst HNonNullable T (DeepNonNullable (NonNullable T))|}"
| "DeepNonNullableObject (MObj ps) =
     {|MObj (fmmap (\<lambda>p. mapped_property Remove Keep p (DeepNonNullable (NonNullable (fst p)))) ps)|}"
| "DeepNonNullableObject (MArray ro e) =
     {|MArray (set_flag Keep ro) (mapped_element Remove (DeepNonNullable (NonNullable e)))|}"
| "DeepNonNullableObject (MInst h x e) =
     {|MMapped (h = HReadonly) (DeepNonNullable (NonNullable e))|}"
| "DeepNonNullableObject (MMapped ro e) = {|MMapped ro (DeepNonNullable (NonNullable e))|}"
| "DeepNonNullableObject (MFun ps r) = {|MFun ps r|}"
| "DeepNonNullableObject (MPrim p) = {|MPrim p|}"
| "DeepNonNullableObject (MLit s) = {|MLit s|}"
  by pat_completeness auto
termination
  by (relation "measure (\<lambda>x. case x of
      Inl (Inl T) \<Rightarrow> 2 * ty_size T
    | Inl (Inr m) \<Rightarrow> 2 * size m + 1
    | Inr (Inl T) \<Rightarrow> 2 * ty_size T + 1
    | Inr (Inr m) \<Rightarrow> 2 * size m)")
    (auto simp: size_MArray size_MInst size_MMapped ty_size_NonNullable
      intro: ty_size_property_NonNullable dest: ty_size_member ty_size_property
      simp del: mem.size)

section \<open>\<^verbatim>\<open>$Call\<close> of \<^verbatim>\<open>utility-types.ts\<close>\<close>

text \<open>
  \<^verbatim>\<open>$Call<Fn extends (...args: any[]) => any> = Fn extends (arg: any) => infer RT ? RT : never\<close>.
  A signature is assignable to \<^verbatim>\<open>(arg: any) => infer RT\<close> when it needs at most the one
  argument that the pattern supplies (\<^verbatim>\<open>any\<close> accepts every parameter type), and \<open>RT\<close> is
  then its return type.
\<close>

definition extends_unary_function :: "mem \<Rightarrow> bool" where
  "extends_unary_function f = (case f of MFun ps r \<Rightarrow> min_args ps \<le> 1 | _ \<Rightarrow> False)"

definition infer_RT :: "mem \<Rightarrow> ty" where
  "infer_RT f = (case f of MFun ps r \<Rightarrow> r | _ \<Rightarrow> never)"

definition Call :: "ty \<Rightarrow> ty" where
  "Call Fn = distribute (\<lambda>f. if extends_unary_function f then infer_RT f else never) Fn"

section \<open>The runtime guards\<close>

text \<open>
  The values of the host language: \<^verbatim>\<open>undefined\<close>, \<^verbatim>\<open>null\<close>, booleans, numbers, strings,
  symbols, functions, arrays and objects. A number is modelled by an integer: the
  guards only tell zero from the other numbers.
\<close>

datatype js_value =
    JUndefined
  | JNull
  | JBoolean bool
  | JNumber int
  | JString string
  | JSymbol string
  | JFunction
  | JArray "js_value list"
  | JObject "(string \<times> js_value) list"

text \<open>
  Modelled from the spec: the file \<^verbatim>\<open>aliases-and-guards.ts\<close> that defines \<^verbatim>\<open>Falsy\<close> and the
  guard \<^verbatim>\<open>isFalsy\<close> is missing; only its tests are there. The spec: ``Falsy: one of false,
  empty string, numeric zero, null, undefined'', and ``\<^verbatim>\<open>isFalsy(value)\<close>: returns true
  iff the value is one of the fixed falsy set''.
\<close>

definition Falsy :: "js_value set" where
  "Falsy = {JBoolean False, JString [], JNumber 0, JNull, JUndefined}"

definition isFalsy :: "js_value \<Rightarrow> bool" where
  "isFalsy val = (val \<in> Falsy)"

text \<open>
  Modelled from the spec: the file \<^verbatim>\<open>aliases-and-guards.ts\<close> that defines \<^verbatim>\<open>Primitive\<close> and
  the guard \<^verbatim>\<open>isPrimitive\<close> is missing; only its tests are there. The spec:
  ``\<^verbatim>\<open>isPrimitive(value)\<close>: returns true iff the value's runtime class is one of a fixed
  closed set {boolean, number, string, null-or-undefined, symbol}''.
\<close>

datatype runtime_class =
  ClassBoolean | ClassNumber | ClassString | ClassNullish | ClassSymbol
  | ClassFunction | ClassArray | ClassObject

fun class_of :: "js_value \<Rightarrow> runtime_class" where
  "class_of JUndefined = ClassNullish"
| "class_of JNull = ClassNullish"
| "class_of (JBoolean b) = ClassBoolean"
| "class_of (JNumber n) = ClassNumber"
| "class_of (JString s) = ClassString"
| "class_of (JSymbol s) = ClassSymbol"
| "class_of JFunction = ClassFunction"
| "class_of (JArray vs) = ClassArray"
| "class_of (JObject fs) = ClassObject"

definition isPrimitive :: "js_value \<Rightarrow> bool" where
  "isPrimitive val =
     (class_of val \<in> {ClassBoolean, ClassNumber, ClassString, ClassNullish, ClassSymbol})"

text \<open>
  Modelled from the spec: the types \<^verbatim>\<open>Primitive\<close> (``one of boolean, number, string, null,
  undefined, symbol'') and \<^verbatim>\<open>Primitive[]\<close> of the missing file, as the sets of the values
  that have them.
\<close>

fun has_prim :: "js_value \<Rightarrow> prim \<Rightarrow> bool" where
  "has_prim (JBoolean b) p = (p = PBoolean)"
| "has_prim (JNumber n) p = (p = PNumber)"
| "has_prim (JString s) p = (p = PString)"
| "has_prim (JSymbol s) p = (p = PSymbol)"
| "has_prim JNull p = (p = PNull)"
| "has_prim JUndefined p = (p = PUndefined)"
| "has_prim v p = False"

definition Primitive :: "js_value set" where
  "Primitive = {v. \<exists>p. has_prim v p}"

definition Primitive_array :: "js_value set" where
  "Primitive_array = {v. \<exists>vs. v = JArray vs \<and> set vs \<subseteq> Primitive}"

section \<open>Positions in a type\<close>

text \<open>
  A position in a type is reached by a path of property names and array elements, as
  in \<^verbatim>\<open>DeepReadonly<NestedFunctionProps>['first']['second']\<close> of the tests. The type at a
  position is the union of what the constituents hold there; a constituent that has no
  such property or element holds nothing. The elements are those of an array, of an
  instance of a helper interface and of a mapped object over one.
\<close>

datatype step = Field string | Element

fun step_into :: "step \<Rightarrow> mem \<Rightarrow> ty" where
  "step_into (Field k) (MObj ps) = (case fmlookup ps k of Some (t, opt, ro) \<Rightarrow> t | None \<Rightarrow> never)"
| "step_into Element (MArray ro e) = e"
| "step_into Element (MInst h x e) = e"
| "step_into Element (MMapped ro e) = e"
| "step_into s m = never"

fun at_path :: "step list \<Rightarrow> ty \<Rightarrow> ty" where
  "at_path [] T = T"
| "at_path (s # p) T = at_path p (distribute (step_into s) T)"

section \<open>The structure of a type\<close>







section \<open>The fixtures of \<^verbatim>\<open>mapped-types.spec.ts\<close>\<close>

text \<open>A shape whose properties are all required and mutable, and one whose are all optional.\<close>

definition shape :: "(string \<times> ty) list \<Rightarrow> ty" where
  "shape xs = {|MObj (fmap_of_list (map (\<lambda>(k, t). (k, (t, False, False))) xs))|}"

definition optional_shape :: "(string \<times> ty) list \<Rightarrow> ty" where
  "optional_shape xs =
     {|MObj (fmap_of_list (map (\<lambda>(k, t). (k, (finsert (MPrim PUndefined) t, True, False))) xs))|}"

text \<open>\<^verbatim>\<open>type Props = { name: string; age: number; visible: boolean }\<close>\<close>

definition Props :: ty where
  "Props = shape [(''name'', {|MPrim PString|}), (''age'', {|MPrim PNumber|}),
                  (''visible'', {|MPrim PBoolean|})]"

text \<open>\<^verbatim>\<open>type DefaultProps = { age: number }\<close>\<close>

definition DefaultProps :: ty where
  "DefaultProps = shape [(''age'', {|MPrim PNumber|})]"

text \<open>\<^verbatim>\<open>type NewProps = { age: string; other: string }\<close>\<close>

definition NewProps :: ty where
  "NewProps = shape [(''age'', {|MPrim PString|}), (''other'', {|MPrim PString|})]"

text \<open>
  \<^verbatim>\<open>(value: number) => string\<close>, and the three versions of \<^verbatim>\<open>NestedFunctionProps\<close>: of the
  test of \<^verbatim>\<open>DeepReadonly\<close> (\<^verbatim>\<open>{ first: { second: (value: number) => string } }\<close>), of
  \<^verbatim>\<open>DeepRequired\<close> (\<^verbatim>\<open>{ first?: { second?: (value: number) => string } }\<close>) and of
  \<^verbatim>\<open>DeepNonNullable\<close> (\<^verbatim>\<open>{ first?: null | { second?: (value: number) => string } }\<close>).
\<close>

definition fn_number_string :: mem where
  "fn_number_string = MFun [({|MPrim PNumber|}, False)] {|MPrim PString|}"

definition NestedFunctionProps :: ty where
  "NestedFunctionProps = shape [(''first'', shape [(''second'', {|fn_number_string|})])]"

definition NestedFunctionProps_optional :: ty where
  "NestedFunctionProps_optional =
     optional_shape [(''first'', optional_shape [(''second'', {|fn_number_string|})])]"

definition NestedFunctionProps_nullable :: ty where
  "NestedFunctionProps_nullable =
     optional_shape [(''first'',
       finsert (MPrim PNull) (optional_shape [(''second'', {|fn_number_string|})]))]"



section \<open>Basic facts\<close>

lemma fmlookup_fmtab [simp]:
  "fmlookup (fmtab A f) k = (if k |\<in>| A then Some (f k) else None)"
proof -
  have "dom (\<lambda>x. if x |\<in>| A then Some (f x) else None) = fset A"
    by (auto simp: dom_def)
  then have "fmlookup (Abs_fmap (\<lambda>x. if x |\<in>| A then Some (f x) else None)) =
      (\<lambda>x. if x |\<in>| A then Some (f x) else None)"
    by (intro Abs_fmap_inverse) simp
  then show ?thesis by (simp add: fmtab_def)
qed

lemma fmdom_fmtab [simp]: "fmdom (fmtab A f) = A"
  by (rule fset_eqI) (simp add: fmlookup_dom_iff)

lemma distribute_single [simp]: "distribute f {|m|} = f m"
  by (simp add: distribute_def)

lemma distribute_empty [simp]: "distribute f {||} = {||}"
  by (simp add: distribute_def)

lemma SetDifference_iff: "a |\<in>| SetDifference A B \<longleftrightarrow> a |\<in>| A \<and> \<not> extends a B"
  by (auto simp: SetDifference_def distribute_iff split: if_splits)

lemma SetIntersection_iff: "a |\<in>| SetIntersection A B \<longleftrightarrow> a |\<in>| A \<and> extends a B"
  by (auto simp: SetIntersection_def distribute_iff split: if_splits)

lemma fmlookup_notin [simp]: "k |\<notin>| fmdom m \<Longrightarrow> fmlookup m k = None"
  by (rule fmdom_notD)

lemma MLit_fimage_iff [simp]: "MLit k |\<in>| MLit |`| A \<longleftrightarrow> k |\<in>| A"
  by auto

lemma MLit_image_iff [simp]: "MLit k \<in> MLit ` A \<longleftrightarrow> k \<in> A"
  by auto

lemma keyof_record [simp]: "keyof {|MObj ps|} = MLit |`| fmdom ps"
  by (auto simp: keyof_def has_key_def)

lemma extends_lit_keys [simp]: "extends (MLit k) (MLit |`| A) \<longleftrightarrow> k |\<in>| A"
  by (auto simp: extends_def)

lemma has_key_record [simp]: "has_key {|MObj ps|} k \<longleftrightarrow> k |\<in>| fmdom ps"
  by (simp add: has_key_def)

lemma prop_at_record: "fmlookup ps k = Some p \<Longrightarrow> prop_at {|MObj ps|} k = p"
  by (cases p) (simp add: prop_at_def index_type_def)

lemma lit_key_case: "k |\<in>| (case m of MLit k' \<Rightarrow> {|k'|} | _ \<Rightarrow> {||}) \<longleftrightarrow> m = MLit k"
  by (cases m) auto

lemma lit_keys_iff [simp]: "k |\<in>| lit_keys K \<longleftrightarrow> MLit k |\<in>| K"
  by (auto simp: lit_keys_def ffUnion_iff lit_key_case)

section \<open>Assignability\<close>

text \<open>Every constituent is assignable to itself.\<close>

lemma assignable_params_refl: 
  assumes "\<And>p x. p \<in> set ps \<Longrightarrow> x |\<in>| fst p \<Longrightarrow> assignable x x"
  shows "list_all (\<lambda>(p, q). fBall (fst q) (\<lambda>n. fBex (fst p) (\<lambda>m. assignable n m))) (zip ps ps)"
  unfolding list_all_iff using assms by (fastforce simp: zip_same)

lemma assignable_members_refl:
  assumes "\<And>x. x |\<in>| r \<Longrightarrow> assignable x x"
  shows "fBall r (\<lambda>m. fBex r (\<lambda>n. assignable m n))"
  using assms by blast

lemma min_args_le_length: "min_args ps \<le> length ps"
  by (simp add: min_args_def length_takeWhile_le)

lemma assignable_shape_refl:
  assumes "\<And>k u uopt uro n. fmlookup ps k = Some (u, uopt, uro) \<Longrightarrow> n |\<in>| u \<Longrightarrow> assignable n n"
  shows "assignable (MObj ps) (MObj ps)"
  using assms by (fastforce split: option.splits)

lemma assignable_refl: "assignable m m"
proof (induction m)
  case (MPrim p)
  show ?case by simp
next
  case (MLit s)
  show ?case by simp
next
  case (MFun ps r)
  have "\<And>p x. p \<in> set ps \<Longrightarrow> x |\<in>| fst p \<Longrightarrow> assignable x x"
  proof -
    fix p x assume px: "p \<in> set ps" "x |\<in>| fst p"
    obtain a b where "p = (a, b)" by (cases p)
    with px show "assignable x x" using MFun(1) [of p a x] by simp
  qed
  then have "list_all (\<lambda>(p, q). fBall (fst q) (\<lambda>n. fBex (fst p) (\<lambda>m. assignable n m))) (zip ps ps)"
    by (rule assignable_params_refl)
  moreover have "fBall r (\<lambda>m. fBex r (\<lambda>n. assignable m n))"
    using MFun(2) by (rule assignable_members_refl)
  ultimately show ?case by (simp add: min_args_le_length)
next
  case (MArray ro e)
  then have "fBall e (\<lambda>m. fBex e (\<lambda>n. assignable m n))"
    by (rule assignable_members_refl)
  then show ?case by simp
next
  case (MObj ps)
  have "\<And>k u uopt uro n. fmlookup ps k = Some (u, uopt, uro) \<Longrightarrow> n |\<in>| u \<Longrightarrow> assignable n n"
  proof -
    fix k u uopt uro n assume "fmlookup ps k = Some (u, uopt, uro)" "n |\<in>| u"
    then show "assignable n n" using MObj [of "(u, uopt, uro)" u n] by (simp add: fmran'I)
  qed
  then show ?case by (rule assignable_shape_refl)
next
  case (MInst h x e)
  from MInst(2) have "fBall e (\<lambda>m. fBex e (\<lambda>n. assignable m n))"
    by (rule assignable_members_refl)
  then show ?case by simp
next
  case (MMapped ro e)
  then have "fBall e (\<lambda>m. fBex e (\<lambda>n. assignable m n))"
    by (rule assignable_members_refl)
  then show ?case by simp
qed

text \<open>
  The conditions of the deep transforms' chains, read on the constituents. Nothing but
  a signature is assignable to a signature. What is assignable to a mutable array has
  the members of a mutable array: a mutable array, an instance of \<^verbatim>\<open>_DeepRequiredArray\<close> or
  of \<^verbatim>\<open>_DeepNonNullableArray\<close>, a mapped object over one of these; a readonly array, an
  instance of \<^verbatim>\<open>_DeepReadonlyArray\<close>, a signature, a shape, a primitive and a literal are
  not (so \<^verbatim>\<open>T extends any[]\<close> holds of the former only).
\<close>

lemma chain_conditions:
  "assignable m (MFun ps r) \<Longrightarrow> \<exists>qs r'. m = MFun qs r'"
  "assignable m (MArray False e') \<Longrightarrow> \<exists>e. array_view m = Some (False, e)"
  "\<not> assignable (MArray True e) (MArray False e')"
  "\<not> assignable (MInst HReadonly x e) (MArray False e')"
  "\<not> assignable (MMapped True e) (MArray False e')"
  "assignable (MArray False e) (MArray False e)"
  "assignable (MInst HRequired x e) (MArray False e)"
  "assignable (MInst HNonNullable x e) (MArray False e)"
  "assignable (MMapped False e) (MArray False e)"
  "assignable (MFun ps r) (MFun ps r)"
proof -
  have refl: "fBall e (\<lambda>m. fBex e (\<lambda>n. assignable m n))" for e
    using assignable_refl by blast
  show "assignable m (MFun ps r) \<Longrightarrow> \<exists>qs r'. m = MFun qs r'"
    by (cases m) (auto split: if_splits)
  show "assignable m (MArray False e') \<Longrightarrow> \<exists>e. array_view m = Some (False, e)"
    by (cases m) (auto split: if_splits)
  show "\<not> assignable (MArray True e) (MArray False e')" by simp
  show "\<not> assignable (MInst HReadonly x e) (MArray False e')" by simp
  show "\<not> assignable (MMapped True e) (MArray False e')" by simp
  show "assignable (MArray False e) (MArray False e)" using refl [of e] by simp
  show "assignable (MInst HRequired x e) (MArray False e)" using refl [of e] by simp
  show "assignable (MInst HNonNullable x e) (MArray False e)" using refl [of e] by simp
  show "assignable (MMapped False e) (MArray False e)" using refl [of e] by simp
  show "assignable (MFun ps r) (MFun ps r)" by (rule assignable_refl)
qed

section \<open>Operators on single shapes\<close>

lemma Pick_record: "Pick {|MObj ps|} K = {|MObj (fmfilter (\<lambda>k. MLit k |\<in>| K) ps)|}"
proof -
  have "fmtab (ffilter (has_key {|MObj ps|}) (lit_keys K)) (prop_at {|MObj ps|}) =
        fmfilter (\<lambda>k. MLit k |\<in>| K) ps"
  proof (rule fmap_ext)
    fix k
    show "fmlookup (fmtab (ffilter (has_key {|MObj ps|}) (lit_keys K)) (prop_at {|MObj ps|})) k =
          fmlookup (fmfilter (\<lambda>k. MLit k |\<in>| K) ps) k"
      by (cases "fmlookup ps k") (auto simp: prop_at_record dest: fmdomI)
  qed
  then show ?thesis by (simp add: Pick_def)
qed

lemma Diff_record:
  "Diff {|MObj t|} {|MObj u|} = {|MObj (fmfilter (\<lambda>k. k |\<notin>| fmdom u) t)|}"
proof -
  have "fmfilter (\<lambda>k. MLit k |\<in>| SetDifference (keyof {|MObj t|}) (keyof {|MObj u|})) t =
        fmfilter (\<lambda>k. k |\<notin>| fmdom u) t"
    by (rule fmap_ext) (auto simp: SetDifference_iff)
  then show ?thesis by (simp add: Diff_def Pick_record)
qed

lemma Intersection_record:
  "Intersection {|MObj t|} {|MObj u|} = {|MObj (fmfilter (\<lambda>k. k |\<in>| fmdom u) t)|}"
proof -
  have "fmfilter (\<lambda>k. MLit k |\<in>| SetIntersection (keyof {|MObj t|}) (keyof {|MObj u|})) t =
        fmfilter (\<lambda>k. k |\<in>| fmdom u) t"
    by (rule fmap_ext) (auto simp: SetIntersection_iff)
  then show ?thesis by (simp add: Intersection_def extends_any_def Pick_record)
qed





lemma fmap_eq_iff: "m = n \<longleftrightarrow> (\<forall>k. fmlookup m k = fmlookup n k)"
  by (auto intro: fmap_ext)

section \<open>Overwrite and Assign\<close>




section \<open>Facts about the deep transforms\<close>

lemma distribute_finsert [simp]: "distribute f (finsert m T) = f m |\<union>| distribute f T"
  by (simp add: distribute_def)

lemma extends_undefined [simp]: "extends a {|MPrim PUndefined|} \<longleftrightarrow> a = MPrim PUndefined"
  by (cases a) (auto simp: extends_def)

lemma extends_nullish [simp]:
  "extends a {|MPrim PNull, MPrim PUndefined|} \<longleftrightarrow> a = MPrim PNull \<or> a = MPrim PUndefined"
  by (cases a) (auto simp: extends_def)

lemma NonUndefined_iff [simp]: "x |\<in>| NonUndefined T \<longleftrightarrow> x |\<in>| T \<and> x \<noteq> MPrim PUndefined"
  by (auto simp: NonUndefined_def distribute_iff split: if_splits)

lemma NonNullable_iff [simp]:
  "x |\<in>| NonNullable T \<longleftrightarrow> x |\<in>| T \<and> x \<noteq> MPrim PNull \<and> x \<noteq> MPrim PUndefined"
  by (auto simp: NonNullable_def distribute_iff split: if_splits)

lemma without_undefined_iff [simp]:
  "x |\<in>| without_undefined T \<longleftrightarrow> x |\<in>| T \<and> x \<noteq> MPrim PUndefined"
  by (auto simp: without_undefined_def)

lemma size_property_member:
  "fmlookup ps k = Some (t, opt, ro) \<Longrightarrow> x |\<in>| t \<Longrightarrow> size x < size (MObj ps)"
  using size_prop_member [of ps k t "(opt, ro)" x] by simp

text \<open>
  What has the members of an array is handled by its array members alone: a step to the
  elements reaches the element type, the structure is the array, and each deep
  transform yields one constituent with array members again, whose element type is the
  transformed element type.
\<close>

lemma step_into_array_view:
  "array_view m = Some (ro, e) \<Longrightarrow> step_into s m = (case s of Element \<Rightarrow> e | Field k \<Rightarrow> never)"
  by (cases m; cases s) auto




text \<open>
  \<^verbatim>\<open>DeepReadonly\<close> applied twice has the structure of \<^verbatim>\<open>DeepReadonly\<close> applied once.
\<close>

lemma DeepReadonly1_array_view:
  assumes "array_view m = Some (ro, e)"
  shows "\<exists>m'. DeepReadonly1 m = {|m'|} \<and> array_view m' = Some (True, DeepReadonly e)"
proof (cases m)
  case (MArray ro' e')
  with assms show ?thesis by (cases ro') (auto simp: set_flag_def mapped_element_def)
next
  case (MInst h x e')
  with assms show ?thesis by (cases h) auto
next
  case (MMapped ro' e')
  with assms show ?thesis by (cases ro') auto
qed (use assms in auto)

lemma DeepReadonly1_prim_iff [simp]: "MPrim p |\<in>| DeepReadonly1 m \<longleftrightarrow> m = MPrim p"
proof (cases m)
  case (MArray ro e)
  then show ?thesis by (cases ro) auto
next
  case (MInst h x e)
  then show ?thesis by (cases h) auto
next
  case (MMapped ro e)
  then show ?thesis by (cases ro) auto
qed auto




text \<open>The same for \<^verbatim>\<open>DeepRequired\<close> and for \<^verbatim>\<open>DeepNonNullable\<close>.\<close>

lemma DeepRequired1_prim_iff [simp]: "MPrim p |\<in>| DeepRequired1 m \<longleftrightarrow> m = MPrim p"
proof (cases m)
  case (MArray ro e)
  then show ?thesis by (cases ro) auto
next
  case (MInst h x e)
  then show ?thesis by (cases h) auto
next
  case (MMapped ro e)
  then show ?thesis by (cases ro) auto
qed auto

lemma DeepRequired_prim_iff: "MPrim p |\<in>| distribute DeepRequired1 T \<longleftrightarrow> MPrim p |\<in>| T"
  by (auto simp: distribute_iff)


lemma without_undefined_DeepRequired:
  "without_undefined (distribute DeepRequired1 (NonUndefined T)) = distribute DeepRequired1 (NonUndefined T)"
  by (rule fset_eqI) (auto simp: DeepRequired_prim_iff)

lemma DeepRequired_property:
  "mapped_property Remove Keep p (distribute DeepRequired1 (NonUndefined (fst p))) =
     (distribute DeepRequired1 (NonUndefined (fst p)), False, snd (snd p))"
  by (cases p) (simp add: mapped_property_def set_flag_def without_undefined_DeepRequired)

lemma DeepRequired1_object:
  "DeepRequired1 (MObj ps) =
     {|MObj (fmmap (\<lambda>p. (distribute DeepRequired1 (NonUndefined (fst p)), False, snd (snd p))) ps)|}"
  by (simp add: DeepRequired_property)

lemma DeepRequired1_array_view:
  assumes "array_view m = Some (ro, e)"
  shows "\<exists>m'. DeepRequired1 m = {|m'|} \<and> array_view m' = Some (ro, DeepRequired (NonUndefined e))"
proof (cases m)
  case (MArray ro' e')
  with assms show ?thesis
    by (cases ro') (auto simp: set_flag_def mapped_element_def without_undefined_DeepRequired)
next
  case (MInst h x e')
  with assms show ?thesis by (cases h) auto
next
  case (MMapped ro' e')
  with assms show ?thesis by (cases ro') auto
qed (use assms in auto)




lemma DeepNonNullable1_prim_iff [simp]: "MPrim p |\<in>| DeepNonNullable1 m \<longleftrightarrow> m = MPrim p"
proof (cases m)
  case (MArray ro e)
  then show ?thesis by (cases ro) auto
next
  case (MInst h x e)
  then show ?thesis by (cases h) auto
next
  case (MMapped ro e)
  then show ?thesis by (cases ro) auto
qed auto

lemma DeepNonNullable_prim_iff: "MPrim p |\<in>| distribute DeepNonNullable1 T \<longleftrightarrow> MPrim p |\<in>| T"
  by (auto simp: distribute_iff)


lemma without_undefined_DeepNonNullable:
  "without_undefined (distribute DeepNonNullable1 (NonNullable T)) = distribute DeepNonNullable1 (NonNullable T)"
  by (rule fset_eqI) (auto simp: DeepNonNullable_prim_iff)

lemma DeepNonNullable_property:
  "mapped_property Remove Keep p (distribute DeepNonNullable1 (NonNullable (fst p))) =
     (distribute DeepNonNullable1 (NonNullable (fst p)), False, snd (snd p))"
  by (cases p) (simp add: mapped_property_def set_flag_def without_undefined_DeepNonNullable)

lemma DeepNonNullable1_object:
  "DeepNonNullable1 (MObj ps) =
     {|MObj (fmmap (\<lambda>p. (distribute DeepNonNullable1 (NonNullable (fst p)), False, snd (snd p))) ps)|}"
  by (simp add: DeepNonNullable_property)

lemma DeepNonNullable1_array_view:
  assumes "array_view m = Some (ro, e)"
  shows "\<exists>m'. DeepNonNullable1 m = {|m'|} \<and> array_view m' = Some (ro, DeepNonNullable (NonNullable e))"
proof (cases m)
  case (MArray ro' e')
  with assms show ?thesis
    by (cases ro') (auto simp: set_flag_def mapped_element_def without_undefined_DeepNonNullable)
next
  case (MInst h x e')
  with assms show ?thesis by (cases h) auto
next
  case (MMapped ro' e')
  with assms show ?thesis by (cases ro') auto
qed (use assms in auto)























lemma DeepReadonly_shape:
  "DeepReadonly {|MObj ps|} =
     {|MObj (fmmap (\<lambda>(t, opt, ro).
        (if opt then finsert (MPrim PUndefined) (DeepReadonly t) else DeepReadonly t,
         opt, True)) ps)|}"
proof -
  have "fmmap (\<lambda>p. mapped_property Keep Add p (DeepReadonly (fst p))) ps =
        fmmap (\<lambda>(t, opt, ro).
          (if opt then finsert (MPrim PUndefined) (DeepReadonly t) else DeepReadonly t,
           opt, True)) ps"
    by (rule fmap.map_cong [OF refl]) (auto simp: mapped_property_def set_flag_def)
  then show ?thesis
    by (simp only: DeepReadonly.simps [of "{|MObj ps|}"] distribute_single DeepReadonly1.simps(9)
        DeepReadonlyObject.simps(1))
qed

lemma DeepRequired_shape:
  "DeepRequired {|MObj ps|} =
     {|MObj (fmmap (\<lambda>(t, opt, ro). (DeepRequired (NonUndefined t), False, ro)) ps)|}"
proof -
  have "fmmap (\<lambda>p. mapped_property Remove Keep p (DeepRequired (NonUndefined (fst p)))) ps =
        fmmap (\<lambda>(t, opt, ro). (DeepRequired (NonUndefined t), False, ro)) ps"
    by (rule fmap.map_cong [OF refl]) (auto simp: DeepRequired_property)
  then show ?thesis
    by (simp only: DeepRequired.simps [of "{|MObj ps|}"] distribute_single DeepRequired1.simps(9)
        DeepRequiredObject.simps(1))
qed

lemma DeepNonNullable_shape:
  "DeepNonNullable {|MObj ps|} =
     {|MObj (fmmap (\<lambda>(t, opt, ro). (DeepNonNullable (NonNullable t), False, ro)) ps)|}"
proof -
  have "fmmap (\<lambda>p. mapped_property Remove Keep p (DeepNonNullable (NonNullable (fst p)))) ps =
        fmmap (\<lambda>(t, opt, ro). (DeepNonNullable (NonNullable t), False, ro)) ps"
    by (rule fmap.map_cong [OF refl]) (auto simp: DeepNonNullable_property)
  then show ?thesis
    by (simp only: DeepNonNullable.simps [of "{|MObj ps|}"] distribute_single DeepNonNullable1.simps(9)
        DeepNonNullableObject.simps(1))
qed

section \<open>Function signatures under the deep transforms\<close>

lemma at_path_iff: "x |\<in>| at_path p T \<longleftrightarrow> (\<exists>m. m |\<in>| T \<and> x |\<in>| at_path p {|m|})"
proof (induction p arbitrary: T)
  case Nil
  show ?case by auto
next
  case (Cons s p)
  have "x |\<in>| at_path (s # p) T \<longleftrightarrow>
        (\<exists>y. y |\<in>| distribute (step_into s) T \<and> x |\<in>| at_path p {|y|})"
    using Cons [of "distribute (step_into s) T"] by simp
  also have "\<dots> \<longleftrightarrow> (\<exists>m. m |\<in>| T \<and> (\<exists>y. y |\<in>| step_into s m \<and> x |\<in>| at_path p {|y|}))"
    by (auto simp: distribute_iff)
  also have "\<dots> \<longleftrightarrow> (\<exists>m. m |\<in>| T \<and> x |\<in>| at_path (s # p) {|m|})"
    using Cons [of "step_into s _"] by simp
  finally show ?case .
qed

lemma at_path_never [simp]: "at_path p never = never"
  by (induction p) simp_all

lemma at_path_prim [simp]: "MFun a r |\<notin>| at_path p {|MPrim q|}"
  by (cases p) simp_all

lemma fn_at_path_cong:
  assumes "\<And>m. m |\<in>| T \<Longrightarrow> m |\<in>| U \<or> (\<exists>q. m = MPrim q)"
    and "\<And>m. m |\<in>| U \<Longrightarrow> m |\<in>| T \<or> (\<exists>q. m = MPrim q)"
  shows "MFun a r |\<in>| at_path p T \<longleftrightarrow> MFun a r |\<in>| at_path p U"
proof
  assume "MFun a r |\<in>| at_path p T"
  then obtain m where m: "m |\<in>| T" "MFun a r |\<in>| at_path p {|m|}"
    using at_path_iff [of _ p T] by blast
  with assms(1) [of m] have "m |\<in>| U" by auto
  with m show "MFun a r |\<in>| at_path p U"
    using at_path_iff [of _ p U] by blast
next
  assume "MFun a r |\<in>| at_path p U"
  then obtain m where m: "m |\<in>| U" "MFun a r |\<in>| at_path p {|m|}"
    using at_path_iff [of _ p U] by blast
  with assms(2) [of m] have "m |\<in>| T" by auto
  with m show "MFun a r |\<in>| at_path p T"
    using at_path_iff [of _ p T] by blast
qed

lemma fn_at_path_distribute:
  assumes "\<And>m. m |\<in>| T \<Longrightarrow> MFun a r |\<in>| at_path p (f m) \<longleftrightarrow> MFun a r |\<in>| at_path p {|m|}"
  shows "MFun a r |\<in>| at_path p (distribute f T) \<longleftrightarrow> MFun a r |\<in>| at_path p T"
proof -
  have "MFun a r |\<in>| at_path p (distribute f T) \<longleftrightarrow>
        (\<exists>m. m |\<in>| T \<and> (\<exists>y. y |\<in>| f m \<and> MFun a r |\<in>| at_path p {|y|}))"
    using at_path_iff [of _ p "distribute f T"] by (auto simp: distribute_iff)
  also have "\<dots> \<longleftrightarrow> (\<exists>m. m |\<in>| T \<and> MFun a r |\<in>| at_path p (f m))"
    using at_path_iff [of _ p "f _"] by auto
  also have "\<dots> \<longleftrightarrow> (\<exists>m. m |\<in>| T \<and> MFun a r |\<in>| at_path p {|m|})"
    using assms by auto
  also have "\<dots> \<longleftrightarrow> MFun a r |\<in>| at_path p T"
    using at_path_iff [of _ p T] by auto
  finally show ?thesis .
qed


lemma DeepReadonly1_fn_path:
  "MFun a r |\<in>| at_path p (DeepReadonly1 m) \<longleftrightarrow> MFun a r |\<in>| at_path p {|m|}"
proof (induction m arbitrary: p rule: measure_induct_rule [of size])
  case (less m)
  show ?case
  proof (cases "array_view m")
    case (Some v)
    then obtain ro e where v: "array_view m = Some (ro, e)" by (cases v) auto
    from DeepReadonly1_array_view [OF v] obtain m' where
      m': "DeepReadonly1 m = {|m'|}" "array_view m' = Some (True, DeepReadonly e)" by blast
    show ?thesis
    proof (cases p)
      case Nil
      from v m'(2) have "m \<noteq> MFun a r" "m' \<noteq> MFun a r" by auto
      with Nil m'(1) show ?thesis by simp
    next
      case (Cons s p')
      have "MFun a r |\<in>| at_path p' (distribute DeepReadonly1 e) \<longleftrightarrow>
            MFun a r |\<in>| at_path p' e"
        by (rule fn_at_path_distribute) (use less size_array_view [OF v] in auto)
      then have elems: "MFun a r |\<in>| at_path p' (distribute DeepReadonly1 e) \<longleftrightarrow>
            MFun a r |\<in>| at_path p' e" .
      have "distribute (step_into s) {|m|} = (case s of Element \<Rightarrow> e | Field k \<Rightarrow> never)"
        by (simp add: step_into_array_view [OF v])
      moreover have "distribute (step_into s) {|m'|} =
          (case s of Element \<Rightarrow> DeepReadonly e | Field k \<Rightarrow> never)"
        by (simp add: step_into_array_view [OF m'(2)])
      ultimately show ?thesis
        unfolding Cons at_path.simps m'(1) by (cases s) (use elems in simp_all)
    qed
  next
    case None
    show ?thesis
    proof (cases m)
      case (MObj ps)
      show ?thesis
      proof (cases p)
        case Nil
        with MObj show ?thesis by auto
      next
        case (Cons s p')
        show ?thesis
        proof (cases s)
          case Element
          with Cons MObj show ?thesis by simp
        next
          case (Field k)
          show ?thesis
          proof (cases "fmlookup ps k")
            case None
            with Cons Field MObj show ?thesis by simp
          next
            case (Some pr)
            obtain t opt ro where pr: "pr = (t, opt, ro)" by (cases pr)
            have IH: "\<And>x p. x |\<in>| t \<Longrightarrow>
                MFun a r |\<in>| at_path p (DeepReadonly1 x) \<longleftrightarrow> MFun a r |\<in>| at_path p {|x|}"
              using less MObj Some pr size_property_member [of ps k t opt ro] by auto
            have "MFun a r |\<in>| at_path p'
                    (fst (mapped_property Keep Add pr (distribute DeepReadonly1 t))) \<longleftrightarrow>
                  MFun a r |\<in>| at_path p' (distribute DeepReadonly1 t)"
              by (rule fn_at_path_cong) (auto simp: pr mapped_property_def split: if_splits)
            also have "\<dots> \<longleftrightarrow> MFun a r |\<in>| at_path p' t"
              by (rule fn_at_path_distribute) (use IH in auto)
            finally show ?thesis using Cons Field Some pr MObj
              by (simp add: case_prod_beta)
          qed
        qed
      qed
    qed (use None in simp_all)
  qed
qed

lemma DeepReadonly_fn_path:
  "MFun a r |\<in>| at_path p (DeepReadonly T) \<longleftrightarrow> MFun a r |\<in>| at_path p T"
  by (simp add: fn_at_path_distribute DeepReadonly1_fn_path)

lemma DeepRequired1_fn_path:
  "MFun a r |\<in>| at_path p (DeepRequired1 m) \<longleftrightarrow> MFun a r |\<in>| at_path p {|m|}"
proof (induction m arbitrary: p rule: measure_induct_rule [of size])
  case (less m)
  show ?case
  proof (cases "array_view m")
    case (Some v)
    then obtain ro e where v: "array_view m = Some (ro, e)" by (cases v) auto
    from DeepRequired1_array_view [OF v] obtain m' where
      m': "DeepRequired1 m = {|m'|}" "array_view m' = Some (ro, DeepRequired (NonUndefined e))" by blast
    show ?thesis
    proof (cases p)
      case Nil
      from v m'(2) have "m \<noteq> MFun a r" "m' \<noteq> MFun a r" by auto
      with Nil m'(1) show ?thesis by simp
    next
      case (Cons s p')
      have "MFun a r |\<in>| at_path p' (distribute DeepRequired1 (NonUndefined e)) \<longleftrightarrow>
            MFun a r |\<in>| at_path p' (NonUndefined e)"
        by (rule fn_at_path_distribute) (use less size_array_view [OF v] in auto)
      also have "\<dots> \<longleftrightarrow> MFun a r |\<in>| at_path p' e"
        by (rule fn_at_path_cong) auto
      finally have elems: "MFun a r |\<in>| at_path p' (distribute DeepRequired1 (NonUndefined e)) \<longleftrightarrow>
            MFun a r |\<in>| at_path p' e" .
      have "distribute (step_into s) {|m|} = (case s of Element \<Rightarrow> e | Field k \<Rightarrow> never)"
        by (simp add: step_into_array_view [OF v])
      moreover have "distribute (step_into s) {|m'|} =
          (case s of Element \<Rightarrow> DeepRequired (NonUndefined e) | Field k \<Rightarrow> never)"
        by (simp add: step_into_array_view [OF m'(2)])
      ultimately show ?thesis
        unfolding Cons at_path.simps m'(1) by (cases s) (use elems in simp_all)
    qed
  next
    case None
    show ?thesis
    proof (cases m)
      case (MObj ps)
      show ?thesis
      proof (cases p)
        case Nil
        with MObj show ?thesis by auto
      next
        case (Cons s p')
        show ?thesis
        proof (cases s)
          case Element
          with Cons MObj show ?thesis by simp
        next
          case (Field k)
          show ?thesis
          proof (cases "fmlookup ps k")
            case None
            with Cons Field MObj show ?thesis by simp
          next
            case (Some pr)
            obtain t opt ro where pr: "pr = (t, opt, ro)" by (cases pr)
            have IH: "\<And>x p. x |\<in>| t \<Longrightarrow>
                MFun a r |\<in>| at_path p (DeepRequired1 x) \<longleftrightarrow> MFun a r |\<in>| at_path p {|x|}"
              using less MObj Some pr size_property_member [of ps k t opt ro] by auto
            have "MFun a r |\<in>| at_path p'
                    (fst (mapped_property Remove Keep pr (distribute DeepRequired1 (NonUndefined t)))) \<longleftrightarrow>
                  MFun a r |\<in>| at_path p' (distribute DeepRequired1 (NonUndefined t))"
              by (rule fn_at_path_cong) (auto simp: pr mapped_property_def split: if_splits)
            also have "\<dots> \<longleftrightarrow> MFun a r |\<in>| at_path p' (NonUndefined t)"
              by (rule fn_at_path_distribute) (use IH in auto)
            also have "\<dots> \<longleftrightarrow> MFun a r |\<in>| at_path p' t"
              by (rule fn_at_path_cong) auto
            finally show ?thesis using Cons Field Some pr MObj
              by (simp add: case_prod_beta)
          qed
        qed
      qed
    qed (use None in simp_all)
  qed
qed

lemma DeepRequired_fn_path:
  "MFun a r |\<in>| at_path p (DeepRequired T) \<longleftrightarrow> MFun a r |\<in>| at_path p T"
  by (simp add: fn_at_path_distribute DeepRequired1_fn_path)

lemma DeepNonNullable1_fn_path:
  "MFun a r |\<in>| at_path p (DeepNonNullable1 m) \<longleftrightarrow> MFun a r |\<in>| at_path p {|m|}"
proof (induction m arbitrary: p rule: measure_induct_rule [of size])
  case (less m)
  show ?case
  proof (cases "array_view m")
    case (Some v)
    then obtain ro e where v: "array_view m = Some (ro, e)" by (cases v) auto
    from DeepNonNullable1_array_view [OF v] obtain m' where
      m': "DeepNonNullable1 m = {|m'|}" "array_view m' = Some (ro, DeepNonNullable (NonNullable e))" by blast
    show ?thesis
    proof (cases p)
      case Nil
      from v m'(2) have "m \<noteq> MFun a r" "m' \<noteq> MFun a r" by auto
      with Nil m'(1) show ?thesis by simp
    next
      case (Cons s p')
      have "MFun a r |\<in>| at_path p' (distribute DeepNonNullable1 (NonNullable e)) \<longleftrightarrow>
            MFun a r |\<in>| at_path p' (NonNullable e)"
        by (rule fn_at_path_distribute) (use less size_array_view [OF v] in auto)
      also have "\<dots> \<longleftrightarrow> MFun a r |\<in>| at_path p' e"
        by (rule fn_at_path_cong) auto
      finally have elems: "MFun a r |\<in>| at_path p' (distribute DeepNonNullable1 (NonNullable e)) \<longleftrightarrow>
            MFun a r |\<in>| at_path p' e" .
      have "distribute (step_into s) {|m|} = (case s of Element \<Rightarrow> e | Field k \<Rightarrow> never)"
        by (simp add: step_into_array_view [OF v])
      moreover have "distribute (step_into s) {|m'|} =
          (case s of Element \<Rightarrow> DeepNonNullable (NonNullable e) | Field k \<Rightarrow> never)"
        by (simp add: step_into_array_view [OF m'(2)])
      ultimately show ?thesis
        unfolding Cons at_path.simps m'(1) by (cases s) (use elems in simp_all)
    qed
  next
    case None
    show ?thesis
    proof (cases m)
      case (MObj ps)
      show ?thesis
      proof (cases p)
        case Nil
        with MObj show ?thesis by auto
      next
        case (Cons s p')
        show ?thesis
        proof (cases s)
          case Element
          with Cons MObj show ?thesis by simp
        next
          case (Field k)
          show ?thesis
          proof (cases "fmlookup ps k")
            case None
            with Cons Field MObj show ?thesis by simp
          next
            case (Some pr)
            obtain t opt ro where pr: "pr = (t, opt, ro)" by (cases pr)
            have IH: "\<And>x p. x |\<in>| t \<Longrightarrow>
                MFun a r |\<in>| at_path p (DeepNonNullable1 x) \<longleftrightarrow> MFun a r |\<in>| at_path p {|x|}"
              using less MObj Some pr size_property_member [of ps k t opt ro] by auto
            have "MFun a r |\<in>| at_path p'
                    (fst (mapped_property Remove Keep pr (distribute DeepNonNullable1 (NonNullable t)))) \<longleftrightarrow>
                  MFun a r |\<in>| at_path p' (distribute DeepNonNullable1 (NonNullable t))"
              by (rule fn_at_path_cong) (auto simp: pr mapped_property_def split: if_splits)
            also have "\<dots> \<longleftrightarrow> MFun a r |\<in>| at_path p' (NonNullable t)"
              by (rule fn_at_path_distribute) (use IH in auto)
            also have "\<dots> \<longleftrightarrow> MFun a r |\<in>| at_path p' t"
              by (rule fn_at_path_cong) auto
            finally show ?thesis using Cons Field Some pr MObj
              by (simp add: case_prod_beta)
          qed
        qed
      qed
    qed (use None in simp_all)
  qed
qed

lemma DeepNonNullable_fn_path:
  "MFun a r |\<in>| at_path p (DeepNonNullable T) \<longleftrightarrow> MFun a r |\<in>| at_path p T"
  by (simp add: fn_at_path_distribute DeepNonNullable1_fn_path)

section \<open>The set complement\<close>

lemma extends_refl: "m |\<in>| U \<Longrightarrow> extends m U"
  using assignable_refl by (auto simp: extends_def)

lemma extends_mono: "extends m U \<Longrightarrow> U |\<subseteq>| V \<Longrightarrow> extends m V"
  by (auto simp: extends_def)

lemma extends_literals:
  assumes "\<And>a. a |\<in>| A \<Longrightarrow> \<exists>s. a = MLit s" and "a |\<in>| A" and "A1 |\<subseteq>| A"
  shows "extends a A1 \<longleftrightarrow> a |\<in>| A1"
proof
  assume "extends a A1"
  then obtain t where t: "t |\<in>| A1" "assignable a t" by (auto simp: extends_def)
  from assms t obtain s s' where "a = MLit s" "t = MLit s'" by (metis fsubsetD) 
  with t show "a |\<in>| A1" by simp
qed (rule extends_refl)

text \<open>
  Claim C10, as amended. For a union type \<open>A\<close> and a type \<open>A1\<close> whose constituents are
  among those of \<open>A\<close>: \<^verbatim>\<open>SetIntersection\<close> of \<^verbatim>\<open>SetComplement<A, A1>\<close> and \<open>A1\<close> is \<^verbatim>\<open>never\<close>;
  the union of \<^verbatim>\<open>SetComplement<A, A1>\<close> and \<open>A1\<close> holds only constituents of \<open>A\<close>, and every
  constituent of \<open>A\<close> is assignable to it; the union is \<open>A\<close> itself exactly when no
  constituent of \<open>A\<close> outside \<open>A1\<close> is assignable to \<open>A1\<close>, which is so whenever \<open>A\<close> is a
  union of string literals.
\<close>

theorem SetComplement_partition:
  assumes "A1 |\<subseteq>| A"
  shows "SetIntersection (SetComplement A A1) A1 = never \<and>
         SetComplement A A1 |\<union>| A1 |\<subseteq>| A \<and>
         (\<forall>a. a |\<in>| A \<longrightarrow> extends a (SetComplement A A1 |\<union>| A1)) \<and>
         (SetComplement A A1 |\<union>| A1 = A \<longleftrightarrow> (\<forall>a. a |\<in>| A |-| A1 \<longrightarrow> \<not> extends a A1)) \<and>
         ((\<forall>a. a |\<in>| A \<longrightarrow> (\<exists>s. a = MLit s)) \<longrightarrow> SetComplement A A1 |\<union>| A1 = A)"
proof (intro conjI)
  show "SetIntersection (SetComplement A A1) A1 = never"
    by (rule fset_eqI) (simp add: SetIntersection_iff SetComplement_def SetDifference_iff)
  show sub: "SetComplement A A1 |\<union>| A1 |\<subseteq>| A"
    using assms by (auto simp: SetComplement_def SetDifference_iff)
  show "\<forall>a. a |\<in>| A \<longrightarrow> extends a (SetComplement A A1 |\<union>| A1)"
  proof (intro allI impI)
    fix a assume a: "a |\<in>| A"
    show "extends a (SetComplement A A1 |\<union>| A1)"
    proof (cases "extends a A1")
      case True
      then show ?thesis by (rule extends_mono) simp
    next
      case False
      with a have "a |\<in>| SetComplement A A1"
        by (simp add: SetComplement_def SetDifference_iff)
      then show ?thesis by (intro extends_refl) simp
    qed
  qed
  show eq: "SetComplement A A1 |\<union>| A1 = A \<longleftrightarrow> (\<forall>a. a |\<in>| A |-| A1 \<longrightarrow> \<not> extends a A1)"
  proof
    assume "SetComplement A A1 |\<union>| A1 = A"
    then have "\<And>a. a |\<in>| A \<Longrightarrow> a |\<notin>| A1 \<Longrightarrow> a |\<in>| SetComplement A A1" by auto
    then show "\<forall>a. a |\<in>| A |-| A1 \<longrightarrow> \<not> extends a A1"
      by (auto simp: SetComplement_def SetDifference_iff)
  next
    assume "\<forall>a. a |\<in>| A |-| A1 \<longrightarrow> \<not> extends a A1"
    then have "A |\<subseteq>| SetComplement A A1 |\<union>| A1"
      by (auto simp: SetComplement_def SetDifference_iff)
    with sub show "SetComplement A A1 |\<union>| A1 = A" by auto
  qed
  show "(\<forall>a. a |\<in>| A \<longrightarrow> (\<exists>s. a = MLit s)) \<longrightarrow> SetComplement A A1 |\<union>| A1 = A"
  proof
    assume lits: "\<forall>a. a |\<in>| A \<longrightarrow> (\<exists>s. a = MLit s)"
    then have "\<forall>a. a |\<in>| A |-| A1 \<longrightarrow> \<not> extends a A1"
      using extends_literals [of A _ A1] assms by auto
    with eq show "SetComplement A A1 |\<union>| A1 = A" by simp
  qed
qed

text \<open>
  Claim C10, at the unions of the source's test: \<^verbatim>\<open>SetComplement<'1' | '2' | '3', '2' | '3'>\<close>
  is \<^verbatim>\<open>'1'\<close>, and with \<^verbatim>\<open>'2' | '3'\<close> it gives \<^verbatim>\<open>'1' | '2' | '3'\<close> back.
\<close>

theorem SetComplement_partition_witness:
  "{|MLit ''2'', MLit ''3''|} |\<subseteq>| {|MLit ''1'', MLit ''2'', MLit ''3''|} \<and>
   SetIntersection (SetComplement {|MLit ''1'', MLit ''2'', MLit ''3''|} {|MLit ''2'', MLit ''3''|})
     {|MLit ''2'', MLit ''3''|} = never \<and>
   SetComplement {|MLit ''1'', MLit ''2'', MLit ''3''|} {|MLit ''2'', MLit ''3''|} = {|MLit ''1''|} \<and>
   SetComplement {|MLit ''1'', MLit ''2'', MLit ''3''|} {|MLit ''2'', MLit ''3''|} |\<union>|
     {|MLit ''2'', MLit ''3''|} = {|MLit ''1'', MLit ''2'', MLit ''3''|}"
proof -
  have sub: "{|MLit ''2'', MLit ''3''|} |\<subseteq>| {|MLit ''1'', MLit ''2'', MLit ''3''|}"
    by simp
  have lits: "\<forall>a. a |\<in>| {|MLit ''1'', MLit ''2'', MLit ''3''|} \<longrightarrow> (\<exists>s. a = MLit s)"
    by simp
  have "SetComplement {|MLit ''1'', MLit ''2'', MLit ''3''|} {|MLit ''2'', MLit ''3''|} = {|MLit ''1''|}"
    by (simp add: SetComplement_def SetDifference_def extends_def)
  with sub lits SetComplement_partition [OF sub] show ?thesis
    by simp
qed

text \<open>
  Claim C10 as stated fails where a constituent outside \<open>A1\<close> is assignable to \<open>A1\<close>:
  for \<^verbatim>\<open>A = { a: string } | { a: string; b: number }\<close> and \<^verbatim>\<open>A1 = { a: string }\<close> the
  complement is \<^verbatim>\<open>never\<close>, and the union with \<open>A1\<close> has lost the second constituent.
\<close>

theorem SetComplement_partition_counterexample:
  "shape [(''a'', {|MPrim PString|})] |\<subseteq>|
     shape [(''a'', {|MPrim PString|})] |\<union>|
     shape [(''a'', {|MPrim PString|}), (''b'', {|MPrim PNumber|})] \<and>
   SetComplement
     (shape [(''a'', {|MPrim PString|})] |\<union>|
      shape [(''a'', {|MPrim PString|}), (''b'', {|MPrim PNumber|})])
     (shape [(''a'', {|MPrim PString|})]) = never \<and>
   SetComplement
     (shape [(''a'', {|MPrim PString|})] |\<union>|
      shape [(''a'', {|MPrim PString|}), (''b'', {|MPrim PNumber|})])
     (shape [(''a'', {|MPrim PString|})]) |\<union>| shape [(''a'', {|MPrim PString|})] \<noteq>
   shape [(''a'', {|MPrim PString|})] |\<union>|
   shape [(''a'', {|MPrim PString|}), (''b'', {|MPrim PNumber|})]"
  by (auto simp: SetComplement_def SetDifference_def extends_def shape_def fmap_eq_iff)

section \<open>The return type of a call\<close>

text \<open>
  The check of \<^verbatim>\<open>$Call\<close> agrees with assignability: a signature passes it exactly when it
  is assignable to some signature with one parameter.
\<close>

lemma extends_unary_function_iff:
  "extends_unary_function (MFun ps r) \<longleftrightarrow> (\<exists>q r'. assignable (MFun ps r) (MFun [q] r'))"
proof
  assume "\<exists>q r'. assignable (MFun ps r) (MFun [q] r')"
  then show "extends_unary_function (MFun ps r)"
    by (auto simp: extends_unary_function_def)
next
  assume u: "extends_unary_function (MFun ps r)"
  have ret: "fBall r (\<lambda>m. fBex r (\<lambda>n. assignable m n))"
    using assignable_refl by blast
  show "\<exists>q r'. assignable (MFun ps r) (MFun [q] r')"
  proof (cases ps)
    case Nil
    with ret show ?thesis by (auto simp: min_args_def)
  next
    case (Cons p ps')
    have "fBall (fst p) (\<lambda>n. fBex (fst p) (\<lambda>m. assignable n m))"
      using assignable_refl by blast
    with u ret Cons have "assignable (MFun ps r) (MFun [p] r)"
      by (simp add: extends_unary_function_def)
    then show ?thesis by blast
  qed
qed

lemma Call_examples:
  "Call {|MFun [({|MPrim PNumber|}, False)] {|MPrim PString|}|} = {|MPrim PString|}"
  "Call {|MFun [] {|MPrim PNumber|}|} = {|MPrim PNumber|}"
  "Call {|MFun [({|MPrim PNumber|}, False), ({|MPrim PString, MPrim PUndefined|}, True)] {|MPrim PBoolean|}|} = {|MPrim PBoolean|}"
  by (simp_all add: Call_def extends_unary_function_def infer_RT_def min_args_def)

text \<open>
  Claim C9, as amended. For a function type that needs at most one argument (no
  parameter, one parameter, or further parameters that are all optional), \<^verbatim>\<open>$Call<Fn>\<close>
  is the return type of \<open>Fn\<close>; for a function type that needs two arguments or more,
  the conditional takes its fallback branch and \<^verbatim>\<open>$Call<Fn>\<close> is \<^verbatim>\<open>never\<close>.
\<close>

theorem Call_return_type:
  "Call {|MFun ps r|} = (if min_args ps \<le> 1 then r else never)"
  by (simp add: Call_def extends_unary_function_def infer_RT_def)

text \<open>
  Claim C9 as stated fails for a function type with two required parameters:
  \<^verbatim>\<open>(a: number, b: string) => boolean\<close> satisfies the constraint of \<^verbatim>\<open>$Call\<close>, and
  \<^verbatim>\<open>$Call\<close> of it is \<^verbatim>\<open>never\<close>, not \<^verbatim>\<open>boolean\<close>.
\<close>

theorem Call_two_arguments_counterexample:
  "Call {|MFun [({|MPrim PNumber|}, False), ({|MPrim PString|}, False)] {|MPrim PBoolean|}|} = never \<and>
   Call {|MFun [({|MPrim PNumber|}, False), ({|MPrim PString|}, False)] {|MPrim PBoolean|}|} \<noteq>
     {|MPrim PBoolean|}"
  by (auto simp add: Call_def extends_unary_function_def infer_RT_def min_args_def)

section \<open>The runtime guards on values\<close>

lemma isPrimitive_iff: "isPrimitive v \<longleftrightarrow> v \<in> Primitive"
  by (cases v) (auto simp: isPrimitive_def Primitive_def)

text \<open>
  Claim C2. \<^verbatim>\<open>isFalsy\<close> returns true exactly for \<^verbatim>\<open>false\<close>, the empty string, zero, \<^verbatim>\<open>null\<close>
  and \<^verbatim>\<open>undefined\<close>: in particular for each of these five values, and not for \<^verbatim>\<open>' '\<close>,
  \<^verbatim>\<open>true\<close>, \<^verbatim>\<open>{}\<close> and \<^verbatim>\<open>[]\<close> (the values of the two tests).
\<close>

theorem isFalsy_exactly_the_falsy_values:
  "(isFalsy val \<longleftrightarrow>
      val = JBoolean False \<or> val = JString '''' \<or> val = JNumber 0 \<or> val = JNull \<or>
      val = JUndefined) \<and>
   isFalsy (JBoolean False) \<and> isFalsy (JString '''') \<and> isFalsy (JNumber 0) \<and>
   isFalsy JNull \<and> isFalsy JUndefined \<and>
   \<not> isFalsy (JString '' '') \<and> \<not> isFalsy (JBoolean True) \<and> \<not> isFalsy (JObject []) \<and>
   \<not> isFalsy (JArray [])"
  by (auto simp: isFalsy_def Falsy_def)

text \<open>
  Claim C7. For a value of type \<^verbatim>\<open>Primitive | Primitive[]\<close>, \<^verbatim>\<open>isPrimitive\<close> returns true
  exactly when the value has type \<^verbatim>\<open>Primitive\<close>: where it returns true the value is a
  \<^verbatim>\<open>Primitive\<close>, and where it returns false the value is a \<^verbatim>\<open>Primitive[]\<close>.
\<close>

theorem isPrimitive_narrows:
  assumes "val \<in> Primitive \<union> Primitive_array"
  shows "(isPrimitive val \<longleftrightarrow> val \<in> Primitive) \<and>
         (isPrimitive val \<longrightarrow> val \<in> Primitive) \<and>
         (\<not> isPrimitive val \<longrightarrow> val \<in> Primitive_array)"
  using assms by (auto simp: isPrimitive_iff)

text \<open>
  Claim C7, at two values: the number \<open>1\<close> takes the true branch, the array \<^verbatim>\<open>[1, 'a']\<close>
  the false branch.
\<close>

theorem isPrimitive_narrows_witness:
  "JNumber 1 \<in> Primitive \<union> Primitive_array \<and> isPrimitive (JNumber 1) \<and>
   JArray [JNumber 1, JString ''a''] \<in> Primitive \<union> Primitive_array \<and>
   \<not> isPrimitive (JArray [JNumber 1, JString ''a'']) \<and>
   JArray [JNumber 1, JString ''a''] \<in> Primitive_array"
proof -
  have 1: "JNumber 1 \<in> Primitive \<union> Primitive_array"
    by (auto simp: Primitive_def)
  have 2: "JArray [JNumber 1, JString ''a''] \<in> Primitive \<union> Primitive_array"
    by (auto simp: Primitive_def Primitive_array_def)
  have 3: "JNumber 1 \<in> Primitive" by (auto simp: Primitive_def)
  have 4: "JArray [JNumber 1, JString ''a''] \<notin> Primitive" by (auto simp: Primitive_def)
  from isPrimitive_narrows [OF 1] isPrimitive_narrows [OF 2] 1 2 3 4 show ?thesis
    by blast
qed

section \<open>Unions of shapes\<close>

lemma fmmap_fmupd [simp]: "fmmap f (fmupd k v m) = fmupd k (f v) (fmmap f m)"
  by (rule fmap_ext) simp

lemma ffilter_finsert [simp]:
  "ffilter P (finsert x A) = (if P x then finsert x (ffilter P A) else ffilter P A)"
  by auto

lemma ffilter_fempty [simp]: "ffilter P {||} = {||}"
  by auto

lemma Omit_record:
  "Omit {|MObj ps|} K = {|MObj (fmfilter (\<lambda>k. \<not> extends (MLit k) K) ps)|}"
proof -
  have "fmfilter (\<lambda>k. MLit k |\<in>| SetDifference (keyof {|MObj ps|}) K) ps =
        fmfilter (\<lambda>k. \<not> extends (MLit k) K) ps"
    by (rule fmap_ext) (auto simp: SetDifference_iff)
  then show ?thesis by (simp add: Omit_def extends_any_def Pick_record)
qed

lemma Intersection_record_any:
  "Intersection {|MObj ps|} U = {|MObj (fmfilter (\<lambda>k. extends (MLit k) (keyof U)) ps)|}"
proof -
  have "fmfilter (\<lambda>k. MLit k |\<in>| SetIntersection (keyof {|MObj ps|}) (keyof U)) ps =
        fmfilter (\<lambda>k. extends (MLit k) (keyof U)) ps"
    by (rule fmap_ext) (auto simp: SetIntersection_iff)
  then show ?thesis by (simp add: Intersection_def extends_any_def Pick_record)
qed

lemma Omit_distributes: "Omit T K = distribute (\<lambda>t. Omit {|t|} K) T"
  by (simp add: Omit_def)

lemma Intersection_distributes: "Intersection T U = distribute (\<lambda>t. Intersection {|t|} U) T"
  by (simp add: Intersection_def)

lemma Omit_iff: "x |\<in>| Omit T K \<longleftrightarrow> (\<exists>t. t |\<in>| T \<and> x |\<in>| Omit {|t|} K)"
  by (simp add: Omit_def distribute_iff)

lemma Intersection_iff: "x |\<in>| Intersection T U \<longleftrightarrow> (\<exists>t. t |\<in>| T \<and> x |\<in>| Intersection {|t|} U)"
  by (simp add: Intersection_def distribute_iff)

lemma Omit_shapes:
  "Omit (MObj |`| S) K = (\<lambda>ps. MObj (fmfilter (\<lambda>k. \<not> extends (MLit k) K) ps)) |`| S"
  by (rule fset_eqI) (auto simp: Omit_iff [of _ "MObj |`| S"] Omit_record)

lemma Intersection_shapes:
  "Intersection (MObj |`| S) U =
     (\<lambda>ps. MObj (fmfilter (\<lambda>k. extends (MLit k) (keyof U)) ps)) |`| S"
  by (rule fset_eqI) (auto simp: Intersection_iff [of _ "MObj |`| S"] Intersection_record_any)

lemma MLit_keyof_iff: "MLit k |\<in>| keyof T \<longleftrightarrow> T \<noteq> never \<and> has_key T k"
  by (auto simp: keyof_def has_key_def ffUnion_iff)

lemma Diff_lookup:
  "\<exists>r. Diff T U = {|MObj r|} \<and>
     (\<forall>k. map_option fst (fmlookup r k) =
        (if MLit k |\<in>| SetDifference (keyof T) (keyof U) then Some (index_type T k) else None))"
  by (auto simp: Diff_def Pick_def SetDifference_iff MLit_keyof_iff prop_at_def)

text \<open>
  Claim C1, as amended. \<^verbatim>\<open>Omit\<close> and \<^verbatim>\<open>Intersection\<close> applied to a union produce the union
  of the results of applying them to each constituent; on a union of object shapes
  each shape keeps its own properties that the key set does not name (for \<^verbatim>\<open>Omit\<close>), or
  that the second type has too (for \<^verbatim>\<open>Intersection\<close>). \<^verbatim>\<open>Diff\<close> does not distribute: it
  yields one shape, whose keys are the keys common to all constituents of \<open>T\<close> that are
  not keys of \<open>U\<close>, each with the union of the constituents' property types. For the
  fixtures: \<^verbatim>\<open>Omit<Props | NewProps, 'age'>\<close> is
  \<^verbatim>\<open>{ name: string; visible: boolean } | { other: string }\<close>,
  \<^verbatim>\<open>Intersection<Props | NewProps, DefaultProps>\<close> is \<^verbatim>\<open>{ age: number } | { age: string }\<close>,
  and \<^verbatim>\<open>Diff<Props | NewProps, { name: string }>\<close> is \<^verbatim>\<open>{ age: number | string }\<close>.
\<close>

theorem Omit_Intersection_distribute_Diff_collapses:
  "Omit T K = distribute (\<lambda>t. Omit {|t|} K) T \<and>
   Intersection T U = distribute (\<lambda>t. Intersection {|t|} U) T \<and>
   Omit (MObj |`| S) K = (\<lambda>ps. MObj (fmfilter (\<lambda>k. \<not> extends (MLit k) K) ps)) |`| S \<and>
   Intersection (MObj |`| S) U =
     (\<lambda>ps. MObj (fmfilter (\<lambda>k. extends (MLit k) (keyof U)) ps)) |`| S \<and>
   (\<exists>r. Diff T U = {|MObj r|} \<and>
      (\<forall>k. map_option fst (fmlookup r k) =
         (if MLit k |\<in>| SetDifference (keyof T) (keyof U) then Some (index_type T k)
          else None))) \<and>
   Omit (Props |\<union>| NewProps) {|MLit ''age''|} =
     shape [(''name'', {|MPrim PString|}), (''visible'', {|MPrim PBoolean|})] |\<union>|
     shape [(''other'', {|MPrim PString|})] \<and>
   Intersection (Props |\<union>| NewProps) DefaultProps =
     shape [(''age'', {|MPrim PNumber|})] |\<union>| shape [(''age'', {|MPrim PString|})] \<and>
   Diff (Props |\<union>| NewProps) (shape [(''name'', {|MPrim PString|})]) =
     shape [(''age'', {|MPrim PNumber, MPrim PString|})]"
proof (intro conjI)
  show "Omit T K = distribute (\<lambda>t. Omit {|t|} K) T"
    by (rule Omit_distributes)
  show "Intersection T U = distribute (\<lambda>t. Intersection {|t|} U) T"
    by (rule Intersection_distributes)
  show "Omit (MObj |`| S) K = (\<lambda>ps. MObj (fmfilter (\<lambda>k. \<not> extends (MLit k) K) ps)) |`| S"
    by (rule Omit_shapes)
  show "Intersection (MObj |`| S) U =
     (\<lambda>ps. MObj (fmfilter (\<lambda>k. extends (MLit k) (keyof U)) ps)) |`| S"
    by (rule Intersection_shapes)
  show "\<exists>r. Diff T U = {|MObj r|} \<and>
      (\<forall>k. map_option fst (fmlookup r k) =
         (if MLit k |\<in>| SetDifference (keyof T) (keyof U) then Some (index_type T k)
          else None))"
    by (rule Diff_lookup)
  show "Omit (Props |\<union>| NewProps) {|MLit ''age''|} =
     shape [(''name'', {|MPrim PString|}), (''visible'', {|MPrim PBoolean|})] |\<union>|
     shape [(''other'', {|MPrim PString|})]"
    by (auto simp: Props_def NewProps_def shape_def Omit_def extends_any_def Pick_record
        SetDifference_iff extends_def fmap_eq_iff)
  show "Intersection (Props |\<union>| NewProps) DefaultProps =
     shape [(''age'', {|MPrim PNumber|})] |\<union>| shape [(''age'', {|MPrim PString|})]"
    by (auto simp: Props_def NewProps_def DefaultProps_def shape_def Intersection_def
        extends_any_def Pick_record SetIntersection_iff extends_def fmap_eq_iff)
  show "Diff (Props |\<union>| NewProps) (shape [(''name'', {|MPrim PString|})]) =
     shape [(''age'', {|MPrim PNumber, MPrim PString|})]"
    by (auto simp: Props_def NewProps_def shape_def Diff_def Pick_def prop_at_def index_type_def
        fmap_eq_iff SetDifference_iff MLit_keyof_iff has_key_def extends_def)
qed

text \<open>
  Claim C1 as stated fails for \<^verbatim>\<open>Diff\<close>: \<^verbatim>\<open>Diff<Props | NewProps, DefaultProps>\<close> is the
  empty shape \<^verbatim>\<open>{}\<close> (the only common key, \<^verbatim>\<open>age\<close>, is a key of \<^verbatim>\<open>DefaultProps\<close>), while
  the union of \<^verbatim>\<open>Diff<Props, DefaultProps>\<close> and \<^verbatim>\<open>Diff<NewProps, DefaultProps>\<close> is
  \<^verbatim>\<open>{ name: string; visible: boolean } | { other: string }\<close>.
\<close>

theorem Diff_union_counterexample:
  "Diff (Props |\<union>| NewProps) DefaultProps = shape [] \<and>
   distribute (\<lambda>t. Diff {|t|} DefaultProps) (Props |\<union>| NewProps) =
     shape [(''name'', {|MPrim PString|}), (''visible'', {|MPrim PBoolean|})] |\<union>|
     shape [(''other'', {|MPrim PString|})] \<and>
   Diff (Props |\<union>| NewProps) DefaultProps \<noteq>
     distribute (\<lambda>t. Diff {|t|} DefaultProps) (Props |\<union>| NewProps)"
proof -
  have 1: "Diff (Props |\<union>| NewProps) DefaultProps = shape []"
    by (auto simp add: Props_def NewProps_def DefaultProps_def shape_def Diff_def Pick_def
        fmap_eq_iff SetDifference_iff MLit_keyof_iff has_key_def extends_def)
  have 2: "distribute (\<lambda>t. Diff {|t|} DefaultProps) (Props |\<union>| NewProps) =
     shape [(''name'', {|MPrim PString|}), (''visible'', {|MPrim PBoolean|})] |\<union>|
     shape [(''other'', {|MPrim PString|})]"
    by (auto simp add: Props_def NewProps_def DefaultProps_def shape_def Diff_record fmap_eq_iff)
  have 3: "shape [] \<noteq>
     shape [(''name'', {|MPrim PString|}), (''visible'', {|MPrim PBoolean|})] |\<union>|
     shape [(''other'', {|MPrim PString|})]"
    by (auto simp add: shape_def fmap_eq_iff)
  from 1 2 3 show ?thesis by simp
qed

section \<open>The fixtures under the deep transforms\<close>

lemma NestedFunctionProps_DeepReadonly: "at_path [Field ''first'', Field ''second''] (DeepReadonly NestedFunctionProps) = {|fn_number_string|}"
  by (simp add: NestedFunctionProps_def shape_def fn_number_string_def mapped_property_def set_flag_def)

lemma NestedFunctionProps_DeepRequired: "at_path [Field ''first'', Field ''second''] (DeepRequired NestedFunctionProps_optional) = {|fn_number_string|}"
  by (simp add: NestedFunctionProps_optional_def optional_shape_def fn_number_string_def mapped_property_def set_flag_def
     NonUndefined_def without_undefined_def)

lemma NestedFunctionProps_DeepNonNullable: "at_path [Field ''first'', Field ''second''] (DeepNonNullable NestedFunctionProps_nullable) = {|fn_number_string|}"
  by (simp add: NestedFunctionProps_nullable_def optional_shape_def fn_number_string_def mapped_property_def set_flag_def
     NonNullable_def without_undefined_def)

text \<open>
  Claim C3. Each of \<^verbatim>\<open>DeepReadonly\<close>, \<^verbatim>\<open>DeepRequired\<close> and \<^verbatim>\<open>DeepNonNullable\<close> returns a
  signature as it is (whatever its parameters and its result hold), and a primitive
  and a literal as they are. It maps a shape to the shape with the same keys whose
  property types are the transformed property types (\<^verbatim>\<open>DeepReadonly\<close> sets every
  \<^verbatim>\<open>readonly\<close> flag; \<^verbatim>\<open>DeepRequired\<close> and \<^verbatim>\<open>DeepNonNullable\<close> clear every \<^verbatim>\<open>?\<close> flag and
  transform the property type without \<^verbatim>\<open>undefined\<close>, or without \<^verbatim>\<open>null\<close> and \<^verbatim>\<open>undefined\<close>).
  It maps a mutable array to the instance of its helper interface at the element type,
  which extends the array of the transformed element type, and a readonly array to the
  readonly array of the transformed element type. So at every position of a type,
  reached through properties of shapes and elements of arrays, the signatures found
  after the transform are exactly the signatures found there before: none is changed,
  dropped or added. For the fixtures, the property \<^verbatim>\<open>['first']['second']\<close> of each
  transformed \<^verbatim>\<open>NestedFunctionProps\<close> is \<^verbatim>\<open>(value: number) => string\<close>.
\<close>

theorem deep_transforms_keep_function_signatures:
  "(MFun a r |\<in>| at_path p (DeepReadonly T) \<longleftrightarrow> MFun a r |\<in>| at_path p T) \<and>
   (MFun a r |\<in>| at_path p (DeepRequired T) \<longleftrightarrow> MFun a r |\<in>| at_path p T) \<and>
   (MFun a r |\<in>| at_path p (DeepNonNullable T) \<longleftrightarrow> MFun a r |\<in>| at_path p T) \<and>
   DeepReadonly {|MFun a r|} = {|MFun a r|} \<and>
   DeepRequired {|MFun a r|} = {|MFun a r|} \<and>
   DeepNonNullable {|MFun a r|} = {|MFun a r|} \<and>
   DeepReadonly {|MPrim q|} = {|MPrim q|} \<and>
   DeepRequired {|MPrim q|} = {|MPrim q|} \<and>
   DeepNonNullable {|MPrim q|} = {|MPrim q|} \<and>
   DeepReadonly {|MLit s|} = {|MLit s|} \<and>
   DeepRequired {|MLit s|} = {|MLit s|} \<and>
   DeepNonNullable {|MLit s|} = {|MLit s|} \<and>
   DeepReadonly {|MObj ps|} =
     {|MObj (fmmap (\<lambda>(t, opt, ro).
        (if opt then finsert (MPrim PUndefined) (DeepReadonly t) else DeepReadonly t,
         opt, True)) ps)|} \<and>
   DeepRequired {|MObj ps|} =
     {|MObj (fmmap (\<lambda>(t, opt, ro). (DeepRequired (NonUndefined t), False, ro)) ps)|} \<and>
   DeepNonNullable {|MObj ps|} =
     {|MObj (fmmap (\<lambda>(t, opt, ro). (DeepNonNullable (NonNullable t), False, ro)) ps)|} \<and>
   DeepReadonly {|MArray False e|} = {|MInst HReadonly e (DeepReadonly e)|} \<and>
   DeepRequired {|MArray False e|} = {|MInst HRequired e (DeepRequired (NonUndefined e))|} \<and>
   DeepNonNullable {|MArray False e|} =
     {|MInst HNonNullable e (DeepNonNullable (NonNullable e))|} \<and>
   DeepReadonly {|MArray True e|} = {|MArray True (DeepReadonly e)|} \<and>
   DeepRequired {|MArray True e|} = {|MArray True (DeepRequired (NonUndefined e))|} \<and>
   DeepNonNullable {|MArray True e|} = {|MArray True (DeepNonNullable (NonNullable e))|} \<and>
   at_path [Field ''first'', Field ''second''] (DeepReadonly NestedFunctionProps) =
     {|fn_number_string|} \<and>
   at_path [Field ''first'', Field ''second''] (DeepRequired NestedFunctionProps_optional) =
     {|fn_number_string|} \<and>
   at_path [Field ''first'', Field ''second''] (DeepNonNullable NestedFunctionProps_nullable) =
     {|fn_number_string|}"
proof (intro conjI)
  show "MFun a r |\<in>| at_path p (DeepReadonly T) \<longleftrightarrow> MFun a r |\<in>| at_path p T"
    by (rule DeepReadonly_fn_path)
  show "MFun a r |\<in>| at_path p (DeepRequired T) \<longleftrightarrow> MFun a r |\<in>| at_path p T"
    by (rule DeepRequired_fn_path)
  show "MFun a r |\<in>| at_path p (DeepNonNullable T) \<longleftrightarrow> MFun a r |\<in>| at_path p T"
    by (rule DeepNonNullable_fn_path)
  show "DeepReadonly {|MFun a r|} = {|MFun a r|}" by simp
  show "DeepRequired {|MFun a r|} = {|MFun a r|}" by simp
  show "DeepNonNullable {|MFun a r|} = {|MFun a r|}" by simp
  show "DeepReadonly {|MPrim q|} = {|MPrim q|}" by simp
  show "DeepRequired {|MPrim q|} = {|MPrim q|}" by simp
  show "DeepNonNullable {|MPrim q|} = {|MPrim q|}" by simp
  show "DeepReadonly {|MLit s|} = {|MLit s|}" by simp
  show "DeepRequired {|MLit s|} = {|MLit s|}" by simp
  show "DeepNonNullable {|MLit s|} = {|MLit s|}" by simp
  show "DeepReadonly {|MObj ps|} =
     {|MObj (fmmap (\<lambda>(t, opt, ro).
        (if opt then finsert (MPrim PUndefined) (DeepReadonly t) else DeepReadonly t,
         opt, True)) ps)|}"
    by (rule DeepReadonly_shape)
  show "DeepRequired {|MObj ps|} =
     {|MObj (fmmap (\<lambda>(t, opt, ro). (DeepRequired (NonUndefined t), False, ro)) ps)|}"
    by (rule DeepRequired_shape)
  show "DeepNonNullable {|MObj ps|} =
     {|MObj (fmmap (\<lambda>(t, opt, ro). (DeepNonNullable (NonNullable t), False, ro)) ps)|}"
    by (rule DeepNonNullable_shape)
  show "DeepReadonly {|MArray False e|} = {|MInst HReadonly e (DeepReadonly e)|}" by simp
  show "DeepRequired {|MArray False e|} = {|MInst HRequired e (DeepRequired (NonUndefined e))|}"
    by simp
  show "DeepNonNullable {|MArray False e|} =
     {|MInst HNonNullable e (DeepNonNullable (NonNullable e))|}"
    by simp
  show "DeepReadonly {|MArray True e|} = {|MArray True (DeepReadonly e)|}"
    by (simp add: set_flag_def mapped_element_def)
  show "DeepRequired {|MArray True e|} = {|MArray True (DeepRequired (NonUndefined e))|}"
    by (simp add: set_flag_def mapped_element_def without_undefined_DeepRequired)
  show "DeepNonNullable {|MArray True e|} = {|MArray True (DeepNonNullable (NonNullable e))|}"
    by (simp add: set_flag_def mapped_element_def without_undefined_DeepNonNullable)
  show "at_path [Field ''first'', Field ''second''] (DeepReadonly NestedFunctionProps) =
     {|fn_number_string|}"
    by (rule NestedFunctionProps_DeepReadonly)
  show "at_path [Field ''first'', Field ''second''] (DeepRequired NestedFunctionProps_optional) =
     {|fn_number_string|}"
    by (rule NestedFunctionProps_DeepRequired)
  show "at_path [Field ''first'', Field ''second''] (DeepNonNullable NestedFunctionProps_nullable) =
     {|fn_number_string|}"
    by (rule NestedFunctionProps_DeepNonNullable)
qed

section \<open>A deep transform applied twice\<close>




section \<open>Further properties of the set and shape operators\<close>

text \<open>
  \<^verbatim>\<open>SetIntersection<A, B>\<close> and \<^verbatim>\<open>SetDifference<A, B>\<close> split \<open>A\<close>: every constituent of \<open>A\<close>
  is in exactly one of the two. For the unions of the source's tests,
  \<^verbatim>\<open>SetIntersection<'1' | '2' | '3', '2' | '3' | '4'>\<close> is \<^verbatim>\<open>'2' | '3'\<close> and
  \<^verbatim>\<open>SetDifference<'1' | '2' | '3', '2' | '3' | '4'>\<close> is \<^verbatim>\<open>'1'\<close>.
\<close>

theorem SetIntersection_SetDifference_split:
  "SetIntersection A B |\<union>| SetDifference A B = A \<and>
   SetIntersection A B |\<inter>| SetDifference A B = never \<and>
   SetIntersection {|MLit ''1'', MLit ''2'', MLit ''3''|} {|MLit ''2'', MLit ''3'', MLit ''4''|} =
     {|MLit ''2'', MLit ''3''|} \<and>
   SetDifference {|MLit ''1'', MLit ''2'', MLit ''3''|} {|MLit ''2'', MLit ''3'', MLit ''4''|} =
     {|MLit ''1''|}"
proof (intro conjI)
  show "SetIntersection A B |\<union>| SetDifference A B = A"
    by (rule fset_eqI) (auto simp: SetIntersection_iff SetDifference_iff)
  show "SetIntersection A B |\<inter>| SetDifference A B = never"
    by (rule fset_eqI) (auto simp: SetIntersection_iff SetDifference_iff)
  show "SetIntersection {|MLit ''1'', MLit ''2'', MLit ''3''|}
      {|MLit ''2'', MLit ''3'', MLit ''4''|} = {|MLit ''2'', MLit ''3''|}"
    by (auto simp: SetIntersection_def extends_def)
  show "SetDifference {|MLit ''1'', MLit ''2'', MLit ''3''|}
      {|MLit ''2'', MLit ''3'', MLit ''4''|} = {|MLit ''1''|}"
    by (auto simp: SetDifference_def extends_def)
qed

text \<open>
  The fixtures of the tests on one shape: \<^verbatim>\<open>Omit<Props, 'age'>\<close>,
  \<^verbatim>\<open>Diff<Props, NewProps>\<close> and \<^verbatim>\<open>Subtract<Props, DefaultProps>\<close> are
  \<^verbatim>\<open>{ name: string; visible: boolean }\<close>, and \<^verbatim>\<open>Intersection<Props, DefaultProps>\<close> is
  \<^verbatim>\<open>{ age: number }\<close>.
\<close>

theorem fixtures_on_one_shape:
  "Omit Props {|MLit ''age''|} =
     shape [(''name'', {|MPrim PString|}), (''visible'', {|MPrim PBoolean|})] \<and>
   Diff Props NewProps =
     shape [(''name'', {|MPrim PString|}), (''visible'', {|MPrim PBoolean|})] \<and>
   Subtract Props DefaultProps =
     shape [(''name'', {|MPrim PString|}), (''visible'', {|MPrim PBoolean|})] \<and>
   Intersection Props DefaultProps = shape [(''age'', {|MPrim PNumber|})]"
proof (intro conjI)
  show "Omit Props {|MLit ''age''|} =
     shape [(''name'', {|MPrim PString|}), (''visible'', {|MPrim PBoolean|})]"
    by (auto simp: Props_def shape_def Omit_def extends_any_def Pick_record SetDifference_iff
        extends_def fmap_eq_iff)
  show "Diff Props NewProps =
     shape [(''name'', {|MPrim PString|}), (''visible'', {|MPrim PBoolean|})]"
    by (auto simp: Props_def NewProps_def shape_def Diff_record fmap_eq_iff)
  show "Subtract Props DefaultProps =
     shape [(''name'', {|MPrim PString|}), (''visible'', {|MPrim PBoolean|})]"
    by (auto simp: Props_def DefaultProps_def shape_def Subtract_def SetComplement_def
        Pick_record SetDifference_iff extends_def fmap_eq_iff)
  show "Intersection Props DefaultProps = shape [(''age'', {|MPrim PNumber|})]"
    by (auto simp: Props_def DefaultProps_def shape_def Intersection_record fmap_eq_iff)
qed

end
